theory Spec2Isabelle
  imports Main "HOL-Library.AList"
begin

section \<open>Python strings\<close>

text \<open>
  Strings are lists of characters, the code points below 256. The whitespace of
  \<^verbatim>\<open>str.strip()\<close> and \<^verbatim>\<open>str.split()\<close> in this range: tab, line feed, vertical
  tab, form feed, carriage return, the four separators 0x1C..0x1F, the blank, the
  next-line character 0x85 and the no-break space 0xA0. Code points from 256 on are not
  modelled.
\<close>

definition is_space :: "char \<Rightarrow> bool" where
  "is_space c = (c \<in> set [CHR 0x09, CHR 0x0A, CHR 0x0B, CHR 0x0C, CHR 0x0D,
                            CHR 0x1C, CHR 0x1D, CHR 0x1E, CHR 0x1F, CHR 0x20,
                            CHR 0x85, CHR 0xA0])"

text \<open>\<^verbatim>\<open>s.strip()\<close>\<close>

definition py_strip :: "string \<Rightarrow> string" where
  "py_strip s = rev (dropWhile is_space (rev (dropWhile is_space s)))"

text \<open>Cutting a string at every separator character; the pieces may be empty and there
  is always at least one piece, as with \<^verbatim>\<open>s.split(",")\<close>.\<close>

fun split_at :: "(char \<Rightarrow> bool) \<Rightarrow> string \<Rightarrow> string list" where
  "split_at sep [] = [[]]"
| "split_at sep (c # cs) =
     (if sep c then [] # split_at sep cs
      else (case split_at sep cs of
              [] \<Rightarrow> [[c]]
            | w # ws \<Rightarrow> (c # w) # ws))"

text \<open>\<^verbatim>\<open>s.split(",")\<close>\<close>

definition py_split_comma :: "string \<Rightarrow> string list" where
  "py_split_comma s = split_at (\<lambda>c. c = CHR '','') s"

text \<open>\<^verbatim>\<open>s.split()\<close>: runs of whitespace separate, empty pieces are dropped.\<close>

definition py_split_ws :: "string \<Rightarrow> string list" where
  "py_split_ws s = filter (\<lambda>w. w \<noteq> []) (split_at is_space s)"

text \<open>\<^verbatim>\<open>sep.join(parts)\<close>\<close>

fun py_join :: "string \<Rightarrow> string list \<Rightarrow> string" where
  "py_join sep [] = []"
| "py_join sep [x] = x"
| "py_join sep (x # y # ys) = x @ sep @ py_join sep (y # ys)"

section \<open>The parsed page (BeautifulSoup)\<close>

text \<open>
  A parsed document is a tree of text nodes and elements; an element has a name, its
  attributes in source order and its children. A \<open>tag\<close> is an element together with
  the heads (name and attributes) of its ancestors, nearest first: a CSS selector with a
  descendant combinator looks at the ancestors of a candidate, also at those above the
  element the search started from. The text nodes are the strings that
  \<^verbatim>\<open>get_text\<close> collects: comments and the text inside \<open>script\<close>, \<open>style\<close> and
  \<open>template\<close> elements, which it leaves out, are not nodes of the tree.
\<close>

datatype node = Text string | Elem string "(string \<times> string) list" "node list"

type_synonym head = "string \<times> (string \<times> string) list"

type_synonym tag = "head list \<times> node"

text \<open>All elements below a node in document order, the node itself first.\<close>

fun subtree :: "head list \<Rightarrow> node \<Rightarrow> tag list"
  and subtrees :: "head list \<Rightarrow> node list \<Rightarrow> tag list" where
  "subtree anc (Text s) = []"
| "subtree anc (Elem t a ks) = (anc, Elem t a ks) # subtrees ((t, a) # anc) ks"
| "subtrees anc [] = []"
| "subtrees anc (k # ks) = subtree anc k @ subtrees anc ks"

fun descendants :: "tag \<Rightarrow> tag list" where
  "descendants (anc, Text s) = []"
| "descendants (anc, Elem t a ks) = subtrees ((t, a) # anc) ks"

text \<open>The strings below a node in document order.\<close>

fun strings :: "node \<Rightarrow> string list"
  and strings_list :: "node list \<Rightarrow> string list" where
  "strings (Text s) = [s]"
| "strings (Elem t a ks) = strings_list ks"
| "strings_list [] = []"
| "strings_list (k # ks) = strings k @ strings_list ks"

text \<open>\<^verbatim>\<open>tag.get_text(sep, strip=True)\<close>: every string stripped, the empty ones dropped,
  the rest joined by the separator.\<close>

definition get_text :: "string \<Rightarrow> tag \<Rightarrow> string" where
  "get_text sep tg = py_join sep (filter (\<lambda>s. s \<noteq> []) (map py_strip (strings (snd tg))))"

text \<open>
  A compound selector: an element name, classes that must all be present, and attribute
  tests. A selector is a list of compounds joined by the descendant combinator, the target
  last.
\<close>

datatype attr_test = Has_attr string | Attr_prefix string string

type_synonym compound = "string \<times> string list \<times> attr_test list"

fun is_prefix :: "string \<Rightarrow> string \<Rightarrow> bool" where
  "is_prefix [] s = True"
| "is_prefix (p # ps) [] = False"
| "is_prefix (p # ps) (c # cs) = (p = c \<and> is_prefix ps cs)"

fun attr_holds :: "(string \<times> string) list \<Rightarrow> attr_test \<Rightarrow> bool" where
  "attr_holds a (Has_attr k) = (map_of a k \<noteq> None)"
| "attr_holds a (Attr_prefix k p) =
     (case map_of a k of None \<Rightarrow> False | Some v \<Rightarrow> is_prefix p v)"

definition classes_of :: "(string \<times> string) list \<Rightarrow> string list" where
  "classes_of a = (case map_of a ''class'' of None \<Rightarrow> [] | Some v \<Rightarrow> py_split_ws v)"

fun matches_compound :: "compound \<Rightarrow> head \<Rightarrow> bool" where
  "matches_compound (n, cls, tests) (t, a) =
     (t = n \<and> list_all (\<lambda>c. c \<in> set (classes_of a)) cls \<and> list_all (attr_holds a) tests)"

fun matches_ancestors :: "compound list \<Rightarrow> head list \<Rightarrow> bool" where
  "matches_ancestors [] hs = True"
| "matches_ancestors (c # cs) [] = False"
| "matches_ancestors (c # cs) (h # hs) =
     (if matches_compound c h then matches_ancestors cs hs
      else matches_ancestors (c # cs) hs)"

fun matches :: "compound list \<Rightarrow> tag \<Rightarrow> bool" where
  "matches sel (anc, Text s) = False"
| "matches sel (anc, Elem t a ks) =
     (case rev sel of
        [] \<Rightarrow> False
      | c # cs \<Rightarrow> matches_compound c (t, a) \<and> matches_ancestors cs anc)"

text \<open>\<^verbatim>\<open>tag.select(sel)\<close> and \<^verbatim>\<open>tag.select_one(sel)\<close>\<close>

definition select :: "compound list \<Rightarrow> tag \<Rightarrow> tag list" where
  "select sel tg = filter (matches sel) (descendants tg)"

definition select_one :: "compound list \<Rightarrow> tag \<Rightarrow> tag option" where
  "select_one sel tg = (case select sel tg of [] \<Rightarrow> None | x # xs \<Rightarrow> Some x)"

text \<open>\<^verbatim>\<open>soup.find(name)\<close>: the first element of that name below the tag.\<close>

definition find_tag :: "string \<Rightarrow> tag \<Rightarrow> tag option" where
  "find_tag n tg = select_one [(n, [], [])] tg"

text \<open>\<^verbatim>\<open>tag.find_all(name, recursive=False)\<close>: the children of that name.\<close>

fun is_elem_named :: "string \<Rightarrow> node \<Rightarrow> bool" where
  "is_elem_named n (Text s) = False"
| "is_elem_named n (Elem t a ks) = (t = n)"

fun find_all_children :: "string \<Rightarrow> tag \<Rightarrow> tag list" where
  "find_all_children n (anc, Text s) = []"
| "find_all_children n (anc, Elem t a ks) =
     map (\<lambda>k. ((t, a) # anc, k)) (filter (is_elem_named n) ks)"

text \<open>\<^verbatim>\<open>tag[key]\<close> raises KeyError on a missing attribute; \<^verbatim>\<open>tag.get(key, "")\<close>
  does not.\<close>

fun tag_attrs :: "tag \<Rightarrow> (string \<times> string) list" where
  "tag_attrs (anc, Text s) = []"
| "tag_attrs (anc, Elem t a ks) = a"

datatype py_error = KeyError | BadFile

definition tag_item :: "tag \<Rightarrow> string \<Rightarrow> py_error + string" where
  "tag_item tg k = (case map_of (tag_attrs tg) k of None \<Rightarrow> Inl KeyError | Some v \<Rightarrow> Inr v)"

definition tag_get :: "tag \<Rightarrow> string \<Rightarrow> string \<Rightarrow> string" where
  "tag_get tg k d = (case map_of (tag_attrs tg) k of None \<Rightarrow> d | Some v \<Rightarrow> v)"

section \<open>Records of a college\<close>

text \<open>
  A college is a Python dict: an association list in insertion order. A value is a string,
  or what a blank spreadsheet cell is read back as (NaN).
\<close>

datatype cell = Str string | NaN

type_synonym college = "(string \<times> cell) list"

definition blank_college :: college where
  "blank_college =
     [(''CD Rank'', Str ''''), (''College Name'', Str ''''), (''City'', Str ''''),
      (''State'', Str ''''), (''Course Fees'', Str ''''), (''Placement'', Str ''''),
      (''User Reviews'', Str ''''), (''Ranking'', Str '''')]"

text \<open>\<^verbatim>\<open>data[k] = v\<close>\<close>

definition set_item :: "string \<Rightarrow> string \<Rightarrow> college \<Rightarrow> college" where
  "set_item k v d = AList.update k (Str v) d"

text \<open>Truth value of a dict value: a string is true when it is not empty.\<close>

fun truthy :: "cell \<Rightarrow> bool" where
  "truthy (Str s) = (s \<noteq> [])"
| "truthy NaN = True"

section \<open>parse\_college\_row (collegedunia\_scraper\_ver3\_28dec.py, collegedunia\_scraper\_ver4\_28dec.py)\<close>

definition sel_name_h3 :: "compound list" where
  "sel_name_h3 = [(''a'', [''college_name''], []), (''h3'', [], [])]"

definition sel_location :: "compound list" where
  "sel_location = [(''span'', [''location''], [])]"

definition sel_col_fees :: "compound list" where
  "sel_col_fees = [(''td'', [''col-fees''], [])]"

definition sel_amount :: "compound list" where
  "sel_amount = [(''span'', [''text-lg'', ''text-green''], [])]"

definition sel_span_title :: "compound list" where
  "sel_span_title = [(''span'', [], [Has_attr ''title''])]"

definition sel_col_placement :: "compound list" where
  "sel_col_placement = [(''td'', [''col-placement''], [])]"

definition sel_col_reviews :: "compound list" where
  "sel_col_reviews = [(''td'', [''col-reviews''], [])]"

definition sel_col_ranking :: "compound list" where
  "sel_col_ranking = [(''td'', [''col-ranking''], [])]"

text \<open>The name: \<^verbatim>\<open>" ".join(name_tag.get_text(" ", strip=True).split())\<close>\<close>

definition row_name :: "tag \<Rightarrow> college \<Rightarrow> college" where
  "row_name info_td d =
     (case select_one sel_name_h3 info_td of
        None \<Rightarrow> d
      | Some name_tag \<Rightarrow>
          set_item ''College Name'' (py_join '' '' (py_split_ws (get_text '' '' name_tag))) d)"

text \<open>City and state: the location text cut at commas, every part stripped. The text is
  taken with the separator given, which is the only difference between the versions.\<close>

definition row_location :: "string \<Rightarrow> tag \<Rightarrow> college \<Rightarrow> college" where
  "row_location sep info_td d =
     (case select_one sel_location info_td of
        None \<Rightarrow> d
      | Some loc_span \<Rightarrow>
          (let parts = map py_strip (py_split_comma (get_text sep loc_span));
               d1 = (if length parts > 0 then set_item ''City'' (parts ! 0) d else d)
           in if length parts > 1 then set_item ''State'' (parts ! 1) d1 else d1))"

definition row_fees :: "tag \<Rightarrow> college \<Rightarrow> py_error + college" where
  "row_fees tr d =
     (case select_one sel_col_fees tr of
        None \<Rightarrow> Inr d
      | Some fees_td \<Rightarrow>
          (let parts1 = (case select_one sel_amount fees_td of
                           None \<Rightarrow> []
                         | Some amount \<Rightarrow> [get_text '''' amount])
           in case select_one sel_span_title fees_td of
                None \<Rightarrow> Inr (set_item ''Course Fees'' (py_join '' '' parts1) d)
              | Some label \<Rightarrow>
                  (case tag_item label ''title'' of
                     Inl e \<Rightarrow> Inl e
                   | Inr title \<Rightarrow>
                       Inr (set_item ''Course Fees''
                              (py_join '' '' (parts1 @ [''('' @ title @ '')''])) d))))"

definition row_column :: "compound list \<Rightarrow> string \<Rightarrow> tag \<Rightarrow> college \<Rightarrow> college" where
  "row_column sel k tr d =
     (case select_one sel tr of
        None \<Rightarrow> d
      | Some td \<Rightarrow> set_item k (get_text '' '' td) d)"

definition parse_college_row :: "tag \<Rightarrow> py_error + college" where
  "parse_college_row tr =
     (let data = blank_college;
          tds = find_all_children ''td'' tr
      in if length tds < 2 then Inr data
         else
           (let data = set_item ''CD Rank'' (get_text '''' (tds ! 0)) data;
                info_td = tds ! 1;
                data = row_name info_td data;
                data = row_location '''' info_td data
            in case row_fees tr data of
                 Inl e \<Rightarrow> Inl e
               | Inr data \<Rightarrow>
                   Inr (row_column sel_col_ranking ''Ranking'' tr
                         (row_column sel_col_reviews ''User Reviews'' tr
                           (row_column sel_col_placement ''Placement'' tr data)))))"

section \<open>parse\_college\_row (scraping.py)\<close>

definition sel_block :: "compound list" where
  "sel_block = [(''a'', [''jsx-914129990''], [])]"

definition sel_text_green :: "compound list" where
  "sel_text_green = [(''span'', [''text-green''], [])]"

definition sel_block_label :: "compound list" where
  "sel_block_label = [(''span'', [''text-sm'', ''text-dark-gray''], [])]"

definition sel_percentage :: "compound list" where
  "sel_percentage = [(''span'', [''placement-percentage''], [])]"

definition sel_score :: "compound list" where
  "sel_score = [(''div'', [''placement-score''], [])]"

definition sel_lr_key :: "compound list" where
  "sel_lr_key = [(''span'', [''lr-key''], [])]"

definition sel_lr_value :: "compound list" where
  "sel_lr_value = [(''span'', [''lr-value''], [])]"

definition sel_tagline :: "compound list" where
  "sel_tagline = [(''span'', [''tagline''], []), (''span'', [''jsx-3698117056''], [])]"

definition sel_rank_span :: "compound list" where
  "sel_rank_span = [(''span'', [''rank-span''], [])]"

definition sel_rank_container :: "compound list" where
  "sel_rank_container = [(''span'', [''rank-container''], [])]"

text \<open>\<^verbatim>\<open>x.get_text(" ", strip=True) if x else ""\<close> for \<^verbatim>\<open>x = tag.select_one(sel)\<close>\<close>

definition text_or_empty :: "compound list \<Rightarrow> tag \<Rightarrow> string" where
  "text_or_empty sel tg = (case select_one sel tg of None \<Rightarrow> [] | Some x \<Rightarrow> get_text '' '' x)"

text \<open>\<^verbatim>\<open>if s: parts.append(s)\<close>\<close>

definition append_if :: "string \<Rightarrow> string list \<Rightarrow> string list" where
  "append_if s parts = (if s \<noteq> [] then parts @ [s] else parts)"

definition row_fees_scraping :: "tag \<Rightarrow> college \<Rightarrow> college" where
  "row_fees_scraping tr d =
     (case select_one sel_col_fees tr of
        None \<Rightarrow> d
      | Some fees_td \<Rightarrow>
          (let amount_text = text_or_empty sel_amount fees_td;
               label_text = (case select_one sel_span_title fees_td of
                               None \<Rightarrow> []
                             | Some label_span \<Rightarrow> py_strip (tag_get label_span ''title'' []));
               parts = append_if amount_text [];
               parts = (if label_text \<noteq> [] then parts @ [''('' @ label_text @ '')''] else parts)
           in set_item ''Course Fees'' (py_strip (py_join '' '' parts)) d))"

fun placement_blocks :: "tag list \<Rightarrow> string list \<Rightarrow> string list" where
  "placement_blocks [] parts = parts"
| "placement_blocks (block # blocks) parts =
     (let value_text = text_or_empty sel_text_green block;
          label_text = text_or_empty sel_block_label block
      in placement_blocks blocks
           (if value_text \<noteq> [] \<and> label_text \<noteq> []
            then parts @ [value_text @ '' '' @ label_text] else parts))"

definition row_placement_scraping :: "tag \<Rightarrow> college \<Rightarrow> college" where
  "row_placement_scraping tr d =
     (let placement_parts =
            (case select_one sel_col_placement tr of
               None \<Rightarrow> []
             | Some placement_td \<Rightarrow>
                 (let parts = placement_blocks (select sel_block placement_td) [];
                      parts = (case select_one sel_percentage placement_td of
                                 None \<Rightarrow> parts
                               | Some perc_span \<Rightarrow> parts @ [get_text '' '' perc_span])
                  in case select_one sel_score placement_td of
                       None \<Rightarrow> parts
                     | Some score_container \<Rightarrow> parts @ [get_text '' '' score_container]))
      in set_item ''Placement'' (py_strip (py_join '' '' placement_parts)) d)"

definition row_reviews_scraping :: "tag \<Rightarrow> college \<Rightarrow> college" where
  "row_reviews_scraping tr d =
     (case select_one sel_col_reviews tr of
        None \<Rightarrow> d
      | Some reviews_td \<Rightarrow>
          (let rating_text = text_or_empty sel_lr_key reviews_td;
               count_text = text_or_empty sel_lr_value reviews_td;
               tagline_text = text_or_empty sel_tagline reviews_td;
               pieces = append_if tagline_text (append_if count_text (append_if rating_text []))
           in set_item ''User Reviews'' (py_strip (py_join '' '' pieces)) d))"

definition row_ranking_scraping :: "tag \<Rightarrow> college \<Rightarrow> college" where
  "row_ranking_scraping tr d =
     (case select_one sel_col_ranking tr of
        None \<Rightarrow> d
      | Some ranking_td \<Rightarrow>
          (let rank_text = text_or_empty sel_rank_span ranking_td;
               container_text = text_or_empty sel_rank_container ranking_td
           in if container_text \<noteq> []
              then set_item ''Ranking'' (py_join '' '' (py_split_ws container_text)) d
              else if rank_text \<noteq> []
              then set_item ''Ranking'' (py_join '' '' (py_split_ws rank_text)) d
              else d))"

definition parse_college_row_scraping :: "tag \<Rightarrow> college" where
  "parse_college_row_scraping tr =
     (let data = blank_college;
          tds = find_all_children ''td'' tr
      in if length tds < 2 then data
         else
           (let data = set_item ''CD Rank'' (get_text [] (tds ! 0)) data;
                info_td = tds ! 1;
                data = row_name info_td data;
                data = row_location '' '' info_td data;
                data = row_fees_scraping tr data;
                data = row_placement_scraping tr data;
                data = row_reviews_scraping tr data
            in row_ranking_scraping tr data))"

section \<open>Fetching and finding the listing rows\<close>

text \<open>
  The remote site is a function from the requested URL and the \<open>page\<close> parameter to the
  parsed document, or nothing when the request fails, times out or answers with a status
  other than 200: \<^verbatim>\<open>fetch_page\<close> returns \<^verbatim>\<open>None\<close> in all these cases. The pause
  before every request (\<^verbatim>\<open>polite_sleep\<close>) and the choice of the request headers
  (\<^verbatim>\<open>get_session\<close>) do not change what is collected and are left out.
\<close>

type_synonym web = "string \<Rightarrow> int option \<Rightarrow> node option"

definition fetch_page :: "web \<Rightarrow> string \<Rightarrow> int option \<Rightarrow> tag option" where
  "fetch_page w url params = map_option (\<lambda>n. ([], n)) (w url params)"

text \<open>\<^verbatim>\<open>{"page": page_num} if page_num > 1 else None\<close>\<close>

definition page_params :: "int \<Rightarrow> int option" where
  "page_params page_num = (if page_num > 1 then Some page_num else None)"

definition sel_listing_table :: "compound list" where
  "sel_listing_table = [(''div'', [''listing-block-container''], []), (''table'', [], [])]"

definition sel_table_row :: "compound list" where
  "sel_table_row = [(''tr'', [''table-row''], [])]"

definition find_listing_table :: "tag \<Rightarrow> tag option" where
  "find_listing_table soup =
     (case select_one sel_listing_table soup of
        Some table \<Rightarrow> Some table
      | None \<Rightarrow> find_tag ''table'' soup)"

definition find_college_rows :: "tag \<Rightarrow> tag list" where
  "find_college_rows soup =
     (case find_listing_table soup of None \<Rightarrow> [] | Some table \<Rightarrow> select sel_table_row table)"

text \<open>The calls a page iteration makes to its collaborators, in order: the request, and
  the search for rows (or profile links) in the document it returned.\<close>

datatype call = Fetch string "int option" | Parse

section \<open>The page loops\<close>

text \<open>
  The loop variables of \<^verbatim>\<open>run\<close>, with the scraper object it belongs to. The history
  (page index and the count the page returned) and the calls are kept for the statements
  below; the program writes the same facts to its log.
\<close>

record 'a run_state =
  scraper :: 'a
  total_scraped :: nat
  empty_pages :: nat
  history :: "(int \<times> nat) list"
  calls :: "call list"

definition start_state :: "'a \<Rightarrow> 'a run_state" where
  "start_state s = \<lparr>scraper = s, total_scraped = 0, empty_pages = 0, history = [], calls = []\<rparr>"

text \<open>
  The three ways a page loop ends: the \<^verbatim>\<open>break\<close> on three empty pages in a row, the
  \<^verbatim>\<open>break\<close> on the expected total, and the end of the page range.
\<close>

datatype stop_reason = EMPTY_STREAK | TARGET_REACHED | PAGE_LIMIT

text \<open>
  The body of \<^verbatim>\<open>for page in range(...)\<close> in collegedunia\_scraper\_ver3\_28dec.py and
  in scraping.py is the same statement for statement; the two differ in the range and in
  the \<^verbatim>\<open>scrape_listing_page\<close> they call, which is the first argument here.
\<close>

fun run_pages ::
  "('a \<Rightarrow> int \<Rightarrow> py_error + nat \<times> 'a \<times> call list) \<Rightarrow> int \<Rightarrow> int list \<Rightarrow> 'a run_state
     \<Rightarrow> py_error + stop_reason \<times> 'a run_state" where
  "run_pages scrape expected_total [] st = Inr (PAGE_LIMIT, st)"
| "run_pages scrape expected_total (page # pages) st =
     (case scrape (scraper st) page of
        Inl e \<Rightarrow> Inl e
      | Inr (count, s, cs) \<Rightarrow>
          (let st1 = st\<lparr>scraper := s, history := history st @ [(page, count)],
                         calls := calls st @ cs\<rparr>
           in if count = 0 then
                (let st2 = st1\<lparr>empty_pages := empty_pages st1 + 1\<rparr>
                 in if empty_pages st2 \<ge> 3 then Inr (EMPTY_STREAK, st2)
                    else if int (total_scraped st2) \<ge> expected_total
                    then Inr (TARGET_REACHED, st2)
                    else run_pages scrape expected_total pages st2)
              else
                (let st2 = st1\<lparr>empty_pages := 0,
                                total_scraped := total_scraped st1 + count\<rparr>
                 in if int (total_scraped st2) \<ge> expected_total
                    then Inr (TARGET_REACHED, st2)
                    else run_pages scrape expected_total pages st2)))"

subsection \<open>collegedunia\_scraper\_ver3\_28dec.py\<close>

definition LISTING_URL_ver3 :: string where
  "LISTING_URL_ver3 = ''https://collegedunia.com/science-colleges''"

text \<open>The loop over the rows: a row with a name is appended and counted.\<close>

fun append_rows_ver3 ::
  "tag list \<Rightarrow> nat \<Rightarrow> college list \<Rightarrow> py_error + nat \<times> college list" where
  "append_rows_ver3 [] count data = Inr (count, data)"
| "append_rows_ver3 (tr # rows) count data =
     (case parse_college_row tr of
        Inl e \<Rightarrow> Inl e
      | Inr college \<Rightarrow>
          (case map_of college ''College Name'' of
             None \<Rightarrow> Inl KeyError
           | Some v \<Rightarrow>
               if truthy v then append_rows_ver3 rows (count + 1) (data @ [college])
               else append_rows_ver3 rows count data))"

definition scrape_listing_page_ver3 ::
  "web \<Rightarrow> college list \<Rightarrow> int \<Rightarrow> py_error + nat \<times> college list \<times> call list" where
  "scrape_listing_page_ver3 w data page_num =
     (let params = page_params page_num
      in case fetch_page w LISTING_URL_ver3 params of
           None \<Rightarrow> Inr (0, data, [Fetch LISTING_URL_ver3 params])
         | Some soup \<Rightarrow>
             (case append_rows_ver3 (find_college_rows soup) 0 data of
                Inl e \<Rightarrow> Inl e
              | Inr (count, data') \<Rightarrow>
                  Inr (count, data', [Fetch LISTING_URL_ver3 params, Parse])))"

text \<open>\<^verbatim>\<open>for page in range(start_page, start_page + max_pages)\<close>\<close>

definition run_ver3 ::
  "web \<Rightarrow> int \<Rightarrow> int \<Rightarrow> int \<Rightarrow> py_error + stop_reason \<times> college list run_state" where
  "run_ver3 w start_page max_pages expected_total =
     run_pages (scrape_listing_page_ver3 w) expected_total
       [start_page .. start_page + max_pages - 1] (start_state [])"

subsection \<open>scraping.py\<close>

definition LISTING_URL_scraping :: string where
  "LISTING_URL_scraping = ''https://collegedunia.com/india-colleges''"

fun append_rows_scraping :: "tag list \<Rightarrow> nat \<Rightarrow> college list \<Rightarrow> nat \<times> college list" where
  "append_rows_scraping [] count data = (count, data)"
| "append_rows_scraping (tr # rows) count data =
     (let college_data = parse_college_row_scraping tr
      in if (case map_of college_data ''College Name'' of None \<Rightarrow> False | Some v \<Rightarrow> truthy v)
         then append_rows_scraping rows (count + 1) (data @ [college_data])
         else append_rows_scraping rows count data)"

definition scrape_listing_page_scraping ::
  "web \<Rightarrow> college list \<Rightarrow> int \<Rightarrow> nat \<times> college list \<times> call list" where
  "scrape_listing_page_scraping w data page_num =
     (let params = page_params page_num
      in case fetch_page w LISTING_URL_scraping params of
           None \<Rightarrow> (0, data, [Fetch LISTING_URL_scraping params])
         | Some soup \<Rightarrow>
             (let rows = find_college_rows soup
              in if rows = [] then (0, data, [Fetch LISTING_URL_scraping params, Parse])
                 else (case append_rows_scraping rows 0 data of
                         (count, data') \<Rightarrow>
                           (count, data', [Fetch LISTING_URL_scraping params, Parse]))))"

text \<open>\<^verbatim>\<open>for page_num in range(1, max_pages + 1)\<close>\<close>

definition run_scraping ::
  "web \<Rightarrow> int \<Rightarrow> int \<Rightarrow> py_error + stop_reason \<times> college list run_state" where
  "run_scraping w max_pages expected_total =
     run_pages (\<lambda>data page_num. Inr (scrape_listing_page_scraping w data page_num))
       expected_total [1 .. max_pages] (start_state [])"

subsection \<open>collegedunia\_scraper\_ver4\_28dec.py\<close>

definition LISTING_URL_ver4 :: string where
  "LISTING_URL_ver4 = ''https://collegedunia.com/law-colleges''"

text \<open>
  The spreadsheet \<^verbatim>\<open>EXCEL_FILE\<close>: missing, holding the rows of the last completed
  write, or opened for a write that has not completed. \<^verbatim>\<open>to_excel\<close> writes to the
  path of the file itself, so that between its first and its last step the file holds
  neither the old rows nor the new ones.
\<close>

datatype xfile = Missing | Partial | Saved "college list"

record scraper4 =
  colleges_data :: "college list"
  excel_file :: xfile

definition open_excel :: "scraper4 \<Rightarrow> scraper4" where
  "open_excel s = s\<lparr>excel_file := Partial\<rparr>"

definition write_excel :: "scraper4 \<Rightarrow> scraper4" where
  "write_excel s = s\<lparr>excel_file := Saved (colleges_data s)\<rparr>"

text \<open>\<^verbatim>\<open>pd.DataFrame(self.colleges_data).to_excel(EXCEL_FILE, index=False)\<close>\<close>

definition to_excel :: "scraper4 \<Rightarrow> scraper4" where
  "to_excel s = write_excel (open_excel s)"

text \<open>
  \<^verbatim>\<open>__init__\<close>: \<^verbatim>\<open>pd.read_excel(EXCEL_FILE).to_dict("records")\<close> when the file exists.
  What the spreadsheet library returns for the rows written is the parameter
  \<open>read_excel\<close>; a file whose write did not complete cannot be read.
\<close>

definition init_ver4 ::
  "(college list \<Rightarrow> college list) \<Rightarrow> xfile \<Rightarrow> py_error + scraper4" where
  "init_ver4 read_excel f =
     (case f of
        Missing \<Rightarrow> Inr \<lparr>colleges_data = [], excel_file = Missing\<rparr>
      | Partial \<Rightarrow> Inl BadFile
      | Saved rows \<Rightarrow> Inr \<lparr>colleges_data = read_excel rows, excel_file = Saved rows\<rparr>)"

text \<open>\<^verbatim>\<open>a == b\<close> on dict values: NaN equals nothing.\<close>

fun cell_eq :: "cell \<Rightarrow> cell \<Rightarrow> bool" where
  "cell_eq (Str a) (Str b) = (a = b)"
| "cell_eq NaN b = False"
| "cell_eq a NaN = False"

text \<open>\<^verbatim>\<open>any(c["College Name"] == name for c in self.colleges_data)\<close>\<close>

fun name_seen :: "college list \<Rightarrow> cell \<Rightarrow> py_error + bool" where
  "name_seen [] v = Inr False"
| "name_seen (c # cs) v =
     (case map_of c ''College Name'' of
        None \<Rightarrow> Inl KeyError
      | Some u \<Rightarrow> if cell_eq u v then Inr True else name_seen cs v)"

text \<open>The loop over the rows: a row with a name that no stored college has goes to
  \<^verbatim>\<open>new_rows\<close> and is counted.\<close>

fun new_rows_ver4 ::
  "college list \<Rightarrow> tag list \<Rightarrow> nat \<Rightarrow> college list \<Rightarrow> py_error + nat \<times> college list" where
  "new_rows_ver4 data [] count new_rows = Inr (count, new_rows)"
| "new_rows_ver4 data (tr # rows) count new_rows =
     (case parse_college_row tr of
        Inl e \<Rightarrow> Inl e
      | Inr college \<Rightarrow>
          (case map_of college ''College Name'' of
             None \<Rightarrow> Inl KeyError
           | Some v \<Rightarrow>
               if truthy v then
                 (case name_seen data v of
                    Inl e \<Rightarrow> Inl e
                  | Inr seen \<Rightarrow>
                      if \<not> seen then new_rows_ver4 data rows (count + 1) (new_rows @ [college])
                      else new_rows_ver4 data rows count new_rows)
               else new_rows_ver4 data rows count new_rows))"

text \<open>\<^verbatim>\<open>if new_rows: self.colleges_data.extend(new_rows); ...to_excel(EXCEL_FILE)\<close>\<close>

definition save_new_rows :: "scraper4 \<Rightarrow> college list \<Rightarrow> scraper4" where
  "save_new_rows s new_rows =
     (if new_rows \<noteq> [] then to_excel (s\<lparr>colleges_data := colleges_data s @ new_rows\<rparr>)
      else s)"

definition scrape_listing_page_ver4 ::
  "web \<Rightarrow> scraper4 \<Rightarrow> int \<Rightarrow> py_error + nat \<times> scraper4 \<times> call list" where
  "scrape_listing_page_ver4 w s page_num =
     (let params = page_params page_num
      in case fetch_page w LISTING_URL_ver4 params of
           None \<Rightarrow> Inr (0, s, [Fetch LISTING_URL_ver4 params])
         | Some soup \<Rightarrow>
             (case new_rows_ver4 (colleges_data s) (find_college_rows soup) 0 [] of
                Inl e \<Rightarrow> Inl e
              | Inr (count, new_rows) \<Rightarrow>
                  Inr (count, save_new_rows s new_rows,
                       [Fetch LISTING_URL_ver4 params, Parse])))"

text \<open>
  The states the scraper and its file pass through while the new rows of a page are
  saved: before, after the rows are added in memory, after the file is opened for
  writing, after the write. A crash leaves the file as it is in one of them.
\<close>

definition save_states :: "scraper4 \<Rightarrow> college list \<Rightarrow> scraper4 list" where
  "save_states s new_rows =
     (if new_rows \<noteq> [] then
        (let s1 = s\<lparr>colleges_data := colleges_data s @ new_rows\<rparr>
         in [s, s1, open_excel s1, write_excel (open_excel s1)])
      else [s])"

text \<open>One pass through the body of \<^verbatim>\<open>while True\<close>; the flag says whether it ended in
  \<^verbatim>\<open>break\<close>. Otherwise \<^verbatim>\<open>page += 1\<close> follows.\<close>

definition run_body_ver4 ::
  "web \<Rightarrow> int \<Rightarrow> scraper4 run_state \<Rightarrow> py_error + bool \<times> scraper4 run_state" where
  "run_body_ver4 w page st =
     (case scrape_listing_page_ver4 w (scraper st) page of
        Inl e \<Rightarrow> Inl e
      | Inr (count, s, cs) \<Rightarrow>
          (let st1 = st\<lparr>scraper := s, history := history st @ [(page, count)],
                         calls := calls st @ cs\<rparr>
           in if count = 0 then
                (let st2 = st1\<lparr>empty_pages := empty_pages st1 + 1\<rparr>
                 in Inr (empty_pages st2 \<ge> 3, st2))
              else
                Inr (False, st1\<lparr>empty_pages := 0,
                                 total_scraped := total_scraped st1 + count\<rparr>)))"

text \<open>The loop has no bound: on a site that never serves three empty pages in a row it
  does not return, which is the value \<open>None\<close>.\<close>

partial_function (option) run_loop_ver4 ::
  "web \<Rightarrow> int \<Rightarrow> scraper4 run_state \<Rightarrow> (py_error + scraper4 run_state) option" where
  "run_loop_ver4 w page st =
     (case run_body_ver4 w page st of
        Inl e \<Rightarrow> Some (Inl e)
      | Inr (stop, st') \<Rightarrow>
          if stop then Some (Inr st') else run_loop_ver4 w (page + 1) st')"

definition run_ver4 ::
  "web \<Rightarrow> scraper4 \<Rightarrow> int \<Rightarrow> (py_error + scraper4 run_state) option" where
  "run_ver4 w s start_page = run_loop_ver4 w start_page (start_state s)"

text \<open>The first \<open>n\<close> passes of the loop: whether it has ended, the page it is at, and the
  state.\<close>

fun run_steps_ver4 ::
  "nat \<Rightarrow> web \<Rightarrow> int \<Rightarrow> scraper4 run_state \<Rightarrow> py_error + bool \<times> int \<times> scraper4 run_state" where
  "run_steps_ver4 0 w page st = Inr (False, page, st)"
| "run_steps_ver4 (Suc n) w page st =
     (case run_body_ver4 w page st of
        Inl e \<Rightarrow> Inl e
      | Inr (stop, st') \<Rightarrow>
          if stop then Inr (True, page, st') else run_steps_ver4 n w (page + 1) st')"

subsection \<open>collegedunia\_scraper\_stage1.py\<close>

definition BASE_URL :: string where
  "BASE_URL = ''https://collegedunia.com''"

definition STREAM_URLS :: "(string \<times> string) list" where
  "STREAM_URLS =
     [(''Architecture'', ''https://collegedunia.com/architecture/architectural-planning-colleges''),
      (''Engineering'', ''https://collegedunia.com/engineering/engineering-colleges''),
      (''Management'', ''https://collegedunia.com/management/management-colleges''),
      (''Science'', ''https://collegedunia.com/science/science-colleges''),
      (''Commerce'', ''https://collegedunia.com/commerce/commerce-colleges''),
      (''Arts'', ''https://collegedunia.com/arts/arts-colleges'')]"

definition MAX_PAGES_PER_STREAM :: int where
  "MAX_PAGES_PER_STREAM = 1500"

definition sel_profile :: "compound list" where
  "sel_profile = [(''a'', [], [Attr_prefix ''href'' ''/college/''])]"

text \<open>
  \<^verbatim>\<open>extract_profile_urls\<close>: the link targets up to the first question mark, joined
  to the base URL, without repetitions. The targets start with a slash, for which
  \<^verbatim>\<open>urljoin\<close> puts the path behind the host of the base. It also removes dot
  segments from the path, which is not modelled: two targets that differ only in such
  segments stay two URLs here, so the number of URLs of a page can be larger than in the
  program, while a page has no URL here exactly when it has none there. The order of a
  Python set is not specified, here it is the order of the document.
\<close>

definition clean_href :: "string \<Rightarrow> string" where
  "clean_href href =
     (case split_at (\<lambda>c. c = CHR ''?'') href of [] \<Rightarrow> [] | p # ps \<Rightarrow> p)"

definition extract_profile_urls :: "tag \<Rightarrow> string list" where
  "extract_profile_urls soup =
     remdups (map (\<lambda>a. BASE_URL @ clean_href (tag_get a ''href'' []))
                (filter (\<lambda>a. tag_get a ''href'' [] \<noteq> []) (select sel_profile soup)))"

record stage1_state =
  collected :: "(string \<times> string) list list"
  stream_empty_pages :: nat
  stream_history :: "(int \<times> nat) list"
  stream_calls :: "call list"

definition url_row :: "string \<Rightarrow> string \<Rightarrow> string \<Rightarrow> (string \<times> string) list" where
  "url_row stream base_url u =
     [(''college_profile_url'', u), (''stream'', stream), (''source_listing_url'', base_url)]"

text \<open>\<^verbatim>\<open>for page in range(1, MAX_PAGES_PER_STREAM + 1)\<close> for one stream.\<close>

fun stream_pages :: "web \<Rightarrow> string \<Rightarrow> string \<Rightarrow> int list \<Rightarrow> stage1_state \<Rightarrow> stage1_state" where
  "stream_pages w stream base_url [] st = st"
| "stream_pages w stream base_url (page # pages) st =
     (let params = page_params page
      in case fetch_page w base_url params of
           None \<Rightarrow>
             (let st1 = st\<lparr>stream_empty_pages := stream_empty_pages st + 1,
                            stream_history := stream_history st @ [(page, 0)],
                            stream_calls := stream_calls st @ [Fetch base_url params]\<rparr>
              in if stream_empty_pages st1 \<ge> 3 then st1
                 else stream_pages w stream base_url pages st1)
         | Some soup \<Rightarrow>
             (let urls = extract_profile_urls soup;
                  st1 = st\<lparr>stream_history := stream_history st @ [(page, length urls)],
                            stream_calls := stream_calls st @ [Fetch base_url params, Parse]\<rparr>
              in if urls = [] then
                   (let st2 = st1\<lparr>stream_empty_pages := stream_empty_pages st1 + 1\<rparr>
                    in if stream_empty_pages st2 \<ge> 3 then st2
                       else stream_pages w stream base_url pages st2)
                 else
                   stream_pages w stream base_url pages
                     (st1\<lparr>stream_empty_pages := 0,
                           collected := collected st1 @ map (url_row stream base_url) urls\<rparr>)))"

fun collect_streams :: "web \<Rightarrow> (string \<times> string) list \<Rightarrow> stage1_state \<Rightarrow> stage1_state" where
  "collect_streams w [] st = st"
| "collect_streams w ((stream, base_url) # streams) st =
     collect_streams w streams
       (stream_pages w stream base_url [1 .. MAX_PAGES_PER_STREAM]
          (st\<lparr>stream_empty_pages := 0\<rparr>))"

text \<open>\<^verbatim>\<open>df.drop_duplicates(subset="college_profile_url")\<close> keeps the first row of every
  URL.\<close>

fun drop_duplicates :: "string list \<Rightarrow> (string \<times> string) list list \<Rightarrow> (string \<times> string) list list" where
  "drop_duplicates seen [] = []"
| "drop_duplicates seen (r # rs) =
     (case map_of r ''college_profile_url'' of
        None \<Rightarrow> r # drop_duplicates seen rs
      | Some u \<Rightarrow>
          if u \<in> set seen then drop_duplicates seen rs
          else r # drop_duplicates (u # seen) rs)"

definition collect_college_urls :: "web \<Rightarrow> (string \<times> string) list list" where
  "collect_college_urls w =
     drop_duplicates []
       (collected (collect_streams w STREAM_URLS
          \<lparr>collected = [], stream_empty_pages = 0, stream_history = [], stream_calls = []\<rparr>))"

section \<open>Notions used in the statements\<close>

text \<open>The eight keys of a parsed row, in the order of the dict literal.\<close>

definition FIELDS :: "string list" where
  "FIELDS = [''CD Rank'', ''College Name'', ''City'', ''State'', ''Course Fees'',
             ''Placement'', ''User Reviews'', ''Ranking'']"

text \<open>A record of the fixed shape: exactly these keys in this order, every value a string.\<close>

definition record_ok :: "college \<Rightarrow> bool" where
  "record_ok d \<longleftrightarrow> map fst d = FIELDS \<and> (\<forall>x\<in>set d. \<exists>s. snd x = Str s)"

definition name_of :: "college \<Rightarrow> cell option" where
  "name_of c = map_of c ''College Name''"

text \<open>A row with a name: the value under \<open>College Name\<close> is a string that is not empty.\<close>

definition named :: "college \<Rightarrow> bool" where
  "named c = (case name_of c of Some (Str s) \<Rightarrow> s \<noteq> [] | Some NaN \<Rightarrow> False | None \<Rightarrow> False)"

text \<open>Every stored row has the key \<open>College Name\<close>, so that comparing names does not
  raise.\<close>

definition keyed :: "college list \<Rightarrow> bool" where
  "keyed data = list_all (\<lambda>c. name_of c \<noteq> None) data"

text \<open>The candidates of a page: its rows, parsed.\<close>

definition parsed :: "tag \<Rightarrow> college" where
  "parsed tr = (case parse_college_row tr of Inl e \<Rightarrow> [] | Inr d \<Rightarrow> d)"

definition candidates :: "tag list \<Rightarrow> college list" where
  "candidates rows = map parsed rows"

definition candidates_scraping :: "tag list \<Rightarrow> college list" where
  "candidates_scraping rows = map parse_college_row_scraping rows"

text \<open>A candidate is fresh for a store when it has a name that no stored row has.\<close>

definition fresh :: "college list \<Rightarrow> college \<Rightarrow> bool" where
  "fresh data c = (named c \<and> name_of c \<notin> set (map name_of data))"

text \<open>The rows a page request yields: none when the request fails.\<close>

definition page_rows :: "web \<Rightarrow> string \<Rightarrow> int \<Rightarrow> tag list" where
  "page_rows w url page =
     (case fetch_page w url (page_params page) of
        None \<Rightarrow> []
      | Some soup \<Rightarrow> find_college_rows soup)"

text \<open>The rows of a page that each scraper accepts.\<close>

definition accepted_ver3 :: "web \<Rightarrow> int \<Rightarrow> college list" where
  "accepted_ver3 w page = filter named (candidates (page_rows w LISTING_URL_ver3 page))"

definition accepted_scraping :: "web \<Rightarrow> int \<Rightarrow> college list" where
  "accepted_scraping w page =
     filter named (candidates_scraping (page_rows w LISTING_URL_scraping page))"

definition accepted_ver4 :: "web \<Rightarrow> college list \<Rightarrow> int \<Rightarrow> college list" where
  "accepted_ver4 w data page =
     filter (fresh data) (candidates (page_rows w LISTING_URL_ver4 page))"

text \<open>The page was fetched and has no listing table at all.\<close>

definition structure_missing :: "web \<Rightarrow> string \<Rightarrow> int \<Rightarrow> bool" where
  "structure_missing w url page =
     (case fetch_page w url (page_params page) of
        None \<Rightarrow> False
      | Some soup \<Rightarrow> find_listing_table soup = None)"

text \<open>The empty streak of a history: how many of its last pages returned the count 0.\<close>

definition streak :: "(int \<times> nat) list \<Rightarrow> nat" where
  "streak h = length (takeWhile (\<lambda>e. snd e = 0) (rev h))"

definition accepted_total :: "(int \<times> nat) list \<Rightarrow> nat" where
  "accepted_total h = sum_list (map snd h)"

text \<open>
  What holds of the loop variables whenever the loop of \<^verbatim>\<open>run\<close> goes on to the next
  page, and what holds when it has ended: the counter is the streak of the history, the
  total is the sum of its counts, no earlier point of the history had a streak of three or
  a total that reached the target.
\<close>

definition running :: "int \<Rightarrow> 'a run_state \<Rightarrow> bool" where
  "running expected_total st \<longleftrightarrow>
     empty_pages st = streak (history st) \<and>
     total_scraped st = accepted_total (history st) \<and>
     streak (history st) < 3 \<and>
     (\<forall>n<length (history st). streak (take n (history st)) < 3) \<and>
     (\<forall>n. 0 < n \<and> n \<le> length (history st) \<longrightarrow>
        int (accepted_total (take n (history st))) < expected_total)"

definition ended :: "int \<Rightarrow> stop_reason \<Rightarrow> 'a run_state \<Rightarrow> bool" where
  "ended expected_total r st \<longleftrightarrow>
     empty_pages st = streak (history st) \<and>
     total_scraped st = accepted_total (history st) \<and>
     streak (history st) \<le> 3 \<and>
     (\<forall>n<length (history st). streak (take n (history st)) < 3) \<and>
     (r = EMPTY_STREAK \<longleftrightarrow> streak (history st) = 3) \<and>
     (\<forall>n. 0 < n \<and> n < length (history st) \<longrightarrow>
        int (accepted_total (take n (history st))) < expected_total) \<and>
     (r = TARGET_REACHED \<longleftrightarrow>
        history st \<noteq> [] \<and> expected_total \<le> int (accepted_total (history st)))"

text \<open>The calls of one page iteration: the request, then the search of the document if
  there is one.\<close>

definition page_calls :: "web \<Rightarrow> string \<Rightarrow> int \<Rightarrow> call list" where
  "page_calls w url page =
     (case fetch_page w url (page_params page) of
        None \<Rightarrow> [Fetch url (page_params page)]
      | Some soup \<Rightarrow> [Fetch url (page_params page), Parse])"

text \<open>The states \<^verbatim>\<open>scrape_listing_page\<close> of version 4 passes through on a page.\<close>

definition scrape_states_ver4 :: "web \<Rightarrow> scraper4 \<Rightarrow> int \<Rightarrow> py_error + scraper4 list" where
  "scrape_states_ver4 w s page_num =
     (case fetch_page w LISTING_URL_ver4 (page_params page_num) of
        None \<Rightarrow> Inr [s]
      | Some soup \<Rightarrow>
          (case new_rows_ver4 (colleges_data s) (find_college_rows soup) 0 [] of
             Inl e \<Rightarrow> Inl e
           | Inr (count, new_rows) \<Rightarrow> Inr (save_states s new_rows)))"

text \<open>The file holds what the store holds: nothing accepted so far would be lost.\<close>

definition durable :: "scraper4 \<Rightarrow> bool" where
  "durable s \<longleftrightarrow>
     excel_file s = Saved (colleges_data s) \<or> (colleges_data s = [] \<and> excel_file s = Missing)"

text \<open>The rows a file holds, none when it is missing or cannot be read.\<close>

fun file_rows :: "xfile \<Rightarrow> college list" where
  "file_rows (Saved rows) = rows"
| "file_rows Partial = []"
| "file_rows Missing = []"

text \<open>The number of profile links a page of a stream yields; none when the request
  fails.\<close>

definition count_stage1 :: "web \<Rightarrow> string \<Rightarrow> int \<Rightarrow> nat" where
  "count_stage1 w url page =
     (case fetch_page w url (page_params page) of
        None \<Rightarrow> 0
      | Some soup \<Rightarrow> length (extract_profile_urls soup))"

text \<open>The stores that page processing reaches from the empty store; for version 4 also
  through a new session that loads the file the last one left.\<close>

inductive reach_ver3 :: "web \<Rightarrow> college list \<Rightarrow> bool" for w where
  reach_ver3_start: "reach_ver3 w []"
| reach_ver3_page:
    "reach_ver3 w data \<Longrightarrow> scrape_listing_page_ver3 w data page = Inr (count, data', cs)
       \<Longrightarrow> reach_ver3 w data'"

inductive reach_scraping :: "web \<Rightarrow> college list \<Rightarrow> bool" for w where
  reach_scraping_start: "reach_scraping w []"
| reach_scraping_page:
    "reach_scraping w data \<Longrightarrow> scrape_listing_page_scraping w data page = (count, data', cs)
       \<Longrightarrow> reach_scraping w data'"

inductive reach_ver4 :: "(college list \<Rightarrow> college list) \<Rightarrow> web \<Rightarrow> scraper4 \<Rightarrow> bool"
  for read_excel w where
  reach_ver4_start: "reach_ver4 read_excel w \<lparr>colleges_data = [], excel_file = Missing\<rparr>"
| reach_ver4_page:
    "reach_ver4 read_excel w s \<Longrightarrow> scrape_listing_page_ver4 w s page = Inr (count, s', cs)
       \<Longrightarrow> reach_ver4 read_excel w s'"
| reach_ver4_load:
    "reach_ver4 read_excel w s \<Longrightarrow> init_ver4 read_excel (excel_file s) = Inr s'
       \<Longrightarrow> reach_ver4 read_excel w s'"

text \<open>
  \<^verbatim>\<open>pd.read_excel\<close> with its default arguments, on the text cells the scraper
  writes: a cell whose text is in the library's default list of NA values, the empty text
  among them, is read as NaN; every other text is kept. (A column in which every text is
  a number is read as numbers; this is not modelled.)
\<close>

definition STR_NA_VALUES :: "string list" where
  "STR_NA_VALUES =
     [[], ''#N/A'', ''#N/A N/A'', ''#NA'', ''-1.#IND'', ''-1.#QNAN'', ''-NaN'', ''-nan'',
      ''1.#IND'', ''1.#QNAN'', ''<NA>'', ''N/A'', ''NA'', ''NULL'', ''NaN'', ''None'',
      ''n/a'', ''nan'', ''null'']"

fun read_cell :: "cell \<Rightarrow> cell" where
  "read_cell (Str s) = (if s \<in> set STR_NA_VALUES then NaN else Str s)"
| "read_cell NaN = NaN"

definition read_excel_default :: "college list \<Rightarrow> college list" where
  "read_excel_default rows = map (map (\<lambda>kv. (fst kv, read_cell (snd kv)))) rows"

text \<open>
  A reader that keeps more than the library's default one does, used in the samples: only
  blank cells are read as NaN and every other text is kept, also the texts that
  \<open>read_excel_default\<close> reads as NaN.
\<close>

fun blank_to_nan :: "cell \<Rightarrow> cell" where
  "blank_to_nan (Str s) = (if s = [] then NaN else Str s)"
| "blank_to_nan NaN = NaN"

definition read_blank_as_nan :: "college list \<Rightarrow> college list" where
  "read_blank_as_nan rows = map (map (\<lambda>kv. (fst kv, blank_to_nan (snd kv)))) rows"

subsection \<open>Sample pages\<close>

definition sample_row :: "string \<Rightarrow> string \<Rightarrow> node" where
  "sample_row rank name =
     Elem ''tr'' [(''class'', ''table-row'')]
       [Elem ''td'' [] [Text rank],
        Elem ''td'' []
          [Elem ''a'' [(''class'', ''college_name'')] [Elem ''h3'' [] [Text name]]]]"

definition sample_page :: "node list \<Rightarrow> node" where
  "sample_page rows = Elem ''[document]'' [] [Elem ''table'' [] rows]"

text \<open>A document without any table.\<close>

definition bare_page :: node where
  "bare_page = Elem ''[document]'' [] [Elem ''p'' [] [Text ''maintenance'']]"

text \<open>A row with one cell only.\<close>

definition short_row :: tag where
  "short_row = ([], Elem ''tr'' [(''class'', ''table-row'')] [Elem ''td'' [] [Text ''#1'']])"

definition sample_college :: "string \<Rightarrow> string \<Rightarrow> college" where
  "sample_college rank name =
     [(''CD Rank'', Str rank), (''College Name'', Str name), (''City'', Str []),
      (''State'', Str []), (''Course Fees'', Str []), (''Placement'', Str []),
      (''User Reviews'', Str []), (''Ranking'', Str [])]"

text \<open>A row of the sample shape as it is in a store loaded from a file: the blank cells
  have been read as NaN.\<close>

definition loaded_college :: "string \<Rightarrow> cell \<Rightarrow> college" where
  "loaded_college rank name =
     [(''CD Rank'', Str rank), (''College Name'', name), (''City'', NaN),
      (''State'', NaN), (''Course Fees'', NaN), (''Placement'', NaN),
      (''User Reviews'', NaN), (''Ranking'', NaN)]"

text \<open>Every page serves the same three colleges.\<close>

definition web_three :: web where
  "web_three url params =
     Some (sample_page [sample_row ''#1'' ''A'', sample_row ''#2'' ''B'', sample_row ''#3'' ''C''])"

text \<open>The first page has no table, the second lists one college, later requests fail.\<close>

definition web_bare_first :: web where
  "web_bare_first url params =
     (if params = None then Some bare_page
      else if params = Some 2 then Some (sample_page [sample_row ''#1'' ''A''])
      else None)"

text \<open>The first page lists A, the second A and B, the third A, B and C; later requests
  fail.\<close>

definition web_growing :: web where
  "web_growing url params =
     (if params = None then Some (sample_page [sample_row ''#1'' ''A''])
      else if params = Some 2
      then Some (sample_page [sample_row ''#1'' ''A'', sample_row ''#2'' ''B''])
      else if params = Some 3
      then Some (sample_page [sample_row ''#1'' ''A'', sample_row ''#2'' ''B'',
                              sample_row ''#3'' ''C''])
      else None)"

text \<open>A listing with a college whose name is the text NA: the first page lists it and
  B, the second page lists both and C; later requests fail.\<close>

definition web_na :: web where
  "web_na url params =
     (if params = None
      then Some (sample_page [sample_row ''#1'' ''NA'', sample_row ''#2'' ''B''])
      else if params = Some 2
      then Some (sample_page [sample_row ''#1'' ''NA'', sample_row ''#2'' ''B'',
                              sample_row ''#3'' ''C''])
      else None)"

text \<open>No request succeeds.\<close>

definition web_down :: web where
  "web_down url params = None"

section \<open>Parsed rows have the fixed shape\<close>

lemma keys_update: "k \<in> set (map fst d) \<Longrightarrow> map fst (AList.update k v d) = map fst d"
  by (induction d) auto

lemma vals_update:
  "(\<forall>x\<in>set d. P (snd x)) \<Longrightarrow> P v \<Longrightarrow> (\<forall>x\<in>set (AList.update k v d). P (snd x))"
  by (induction d) auto

lemma record_ok_set_item: "record_ok d \<Longrightarrow> k \<in> set FIELDS \<Longrightarrow> record_ok (set_item k v d)"
  unfolding record_ok_def set_item_def
  by (intro conjI vals_update) (simp_all add: keys_update)

lemma record_ok_blank: "record_ok blank_college"
  by (simp add: record_ok_def blank_college_def FIELDS_def)

lemma select_one_matches: "select_one sel tg = Some x \<Longrightarrow> matches sel x"
proof -
  assume "select_one sel tg = Some x"
  then have "x \<in> set (select sel tg)"
    by (auto simp: select_one_def split: list.splits)
  then show ?thesis by (simp add: select_def)
qed

lemma title_present: "matches sel_span_title x \<Longrightarrow> \<exists>v. tag_item x ''title'' = Inr v"
proof (cases x)
  case (Pair anc n)
  assume "matches sel_span_title x"
  with Pair show ?thesis
    by (cases n) (auto simp: sel_span_title_def tag_item_def)
qed

lemma row_name_ok: "record_ok d \<Longrightarrow> record_ok (row_name td d)"
  by (auto simp: row_name_def FIELDS_def intro!: record_ok_set_item split: option.splits)

lemma row_location_ok: "record_ok d \<Longrightarrow> record_ok (row_location sep td d)"
  by (auto simp: row_location_def Let_def FIELDS_def intro!: record_ok_set_item
      split: option.splits)

lemma row_column_ok: "record_ok d \<Longrightarrow> k \<in> set FIELDS \<Longrightarrow> record_ok (row_column sel k tr d)"
  by (auto simp: row_column_def intro!: record_ok_set_item split: option.splits)

lemma row_fees_ok: "record_ok d \<Longrightarrow> \<exists>d'. row_fees tr d = Inr d' \<and> record_ok d'"
  by (auto simp: row_fees_def Let_def FIELDS_def intro!: record_ok_set_item
      dest!: select_one_matches title_present split: option.splits sum.splits)

lemma parse_college_row_ok: "\<exists>d. parse_college_row tr = Inr d \<and> record_ok d"
proof (cases "length (find_all_children ''td'' tr) < 2")
  case True
  then show ?thesis by (simp add: parse_college_row_def record_ok_blank)
next
  case False
  let ?d = "row_location [] (find_all_children ''td'' tr ! 1)
     (row_name (find_all_children ''td'' tr ! 1)
     (set_item ''CD Rank'' (get_text [] (find_all_children ''td'' tr ! 0)) blank_college))"
  have "record_ok ?d"
    by (intro row_location_ok row_name_ok record_ok_set_item record_ok_blank)
       (simp add: FIELDS_def)
  from row_fees_ok[OF this, of tr] obtain d'
    where d': "row_fees tr ?d = Inr d'" "record_ok d'" by blast
  have "record_ok (row_column sel_col_ranking ''Ranking'' tr
                    (row_column sel_col_reviews ''User Reviews'' tr
                      (row_column sel_col_placement ''Placement'' tr d')))"
    by (intro row_column_ok d') (simp_all add: FIELDS_def)
  with False d' show ?thesis by (simp add: parse_college_row_def Let_def)
qed

lemma row_fees_scraping_ok: "record_ok d \<Longrightarrow> record_ok (row_fees_scraping tr d)"
  by (auto simp: row_fees_scraping_def Let_def FIELDS_def intro!: record_ok_set_item
      split: option.splits)

lemma row_placement_scraping_ok: "record_ok d \<Longrightarrow> record_ok (row_placement_scraping tr d)"
  by (auto simp: row_placement_scraping_def Let_def FIELDS_def intro!: record_ok_set_item)

lemma row_reviews_scraping_ok: "record_ok d \<Longrightarrow> record_ok (row_reviews_scraping tr d)"
  by (auto simp: row_reviews_scraping_def Let_def FIELDS_def intro!: record_ok_set_item
      split: option.splits)

lemma row_ranking_scraping_ok: "record_ok d \<Longrightarrow> record_ok (row_ranking_scraping tr d)"
  by (auto simp: row_ranking_scraping_def Let_def FIELDS_def intro!: record_ok_set_item
      split: option.splits)

lemma parse_college_row_scraping_ok: "record_ok (parse_college_row_scraping tr)"
proof (cases "length (find_all_children ''td'' tr) < 2")
  case True
  then show ?thesis by (simp add: parse_college_row_scraping_def record_ok_blank)
next
  case False
  have "record_ok (set_item ''CD Rank'' (get_text [] (find_all_children ''td'' tr ! 0)) blank_college)"
    by (rule record_ok_set_item[OF record_ok_blank]) (simp add: FIELDS_def)
  then have "record_ok (row_ranking_scraping tr (row_reviews_scraping tr (row_placement_scraping tr
      (row_fees_scraping tr (row_location '' '' (find_all_children ''td'' tr ! 1)
        (row_name (find_all_children ''td'' tr ! 1)
          (set_item ''CD Rank'' (get_text [] (find_all_children ''td'' tr ! 0)) blank_college)))))))"
    by (intro row_ranking_scraping_ok row_reviews_scraping_ok row_placement_scraping_ok
        row_fees_scraping_ok row_location_ok row_name_ok)
  with False show ?thesis by (simp add: parse_college_row_scraping_def Let_def)
qed

lemma record_ok_name: "record_ok d \<Longrightarrow> \<exists>s. map_of d ''College Name'' = Some (Str s)"
proof -
  assume ok: "record_ok d"
  then have "set (map fst d) = set FIELDS" by (simp add: record_ok_def)
  then have "''College Name'' \<in> fst ` set d" by (simp add: FIELDS_def)
  then obtain v where v: "map_of d ''College Name'' = Some v"
    by (cases "map_of d ''College Name''") (auto simp: map_of_eq_None_iff)
  then have "(''College Name'', v) \<in> set d" by (rule map_of_SomeD)
  with ok obtain s where "v = Str s" unfolding record_ok_def by fastforce
  with v show ?thesis by simp
qed

lemma parsed_ok: "parse_college_row tr = Inr (parsed tr) \<and> record_ok (parsed tr)"
  using parse_college_row_ok[of tr] by (auto simp: parsed_def)

lemma short_row_blank:
  assumes "length (find_all_children ''td'' tr) < 2"
  shows "parse_college_row tr = Inr blank_college"
    and "parse_college_row_scraping tr = blank_college"
  unfolding parse_college_row_def parse_college_row_scraping_def Let_def
  using assms by (simp_all only: if_True)

lemma blank_name: "map_of blank_college ''College Name'' = Some (Str [])"
  by (simp add: blank_college_def)

section \<open>What a page contributes\<close>

lemma parsed_name: "\<exists>s. map_of (parsed tr) ''College Name'' = Some (Str s)"
  using parsed_ok[of tr] record_ok_name by blast

lemma named_iff_truthy: "map_of c ''College Name'' = Some (Str s) \<Longrightarrow> named c = (s \<noteq> [])"
  by (simp add: named_def name_of_def)

lemma append_rows_ver3_eq:
  "append_rows_ver3 rows count data =
     Inr (count + length (filter named (candidates rows)), data @ filter named (candidates rows))"
proof (induction rows arbitrary: count data)
  case Nil
  then show ?case by (simp add: candidates_def)
next
  case (Cons tr rows)
  obtain s where s: "map_of (parsed tr) ''College Name'' = Some (Str s)"
    using parsed_name by blast
  have p: "parse_college_row tr = Inr (parsed tr)" using parsed_ok by blast
  show ?case
    using Cons.IH named_iff_truthy[OF s] by (simp add: p s candidates_def)
qed

lemma parse_scraping_name:
  "\<exists>s. map_of (parse_college_row_scraping tr) ''College Name'' = Some (Str s)"
  using parse_college_row_scraping_ok[of tr] record_ok_name by blast

lemma append_rows_scraping_eq:
  "append_rows_scraping rows count data =
     (count + length (filter named (candidates_scraping rows)),
      data @ filter named (candidates_scraping rows))"
proof (induction rows arbitrary: count data)
  case Nil
  then show ?case by (simp add: candidates_scraping_def)
next
  case (Cons tr rows)
  obtain s where s: "map_of (parse_college_row_scraping tr) ''College Name'' = Some (Str s)"
    using parse_scraping_name by blast
  show ?case
    using Cons.IH named_iff_truthy[OF s] by (simp add: s candidates_scraping_def Let_def)
qed

lemma name_seen_eq:
  "keyed data \<Longrightarrow> name_seen data (Str s) = Inr (Some (Str s) \<in> set (map name_of data))"
proof (induction data)
  case Nil
  then show ?case by simp
next
  case (Cons c cs)
  then obtain u where u: "map_of c ''College Name'' = Some u"
    by (auto simp: keyed_def name_of_def)
  have eq: "cell_eq u (Str s) = (u = Str s)" by (cases u) auto
  from Cons u show ?case by (auto simp: keyed_def name_of_def eq)
qed

lemma new_rows_ver4_eq:
  assumes "keyed data"
  shows "new_rows_ver4 data rows count new_rows =
     Inr (count + length (filter (fresh data) (candidates rows)),
          new_rows @ filter (fresh data) (candidates rows))"
proof (induction rows arbitrary: count new_rows)
  case Nil
  then show ?case by (simp add: candidates_def)
next
  case (Cons tr rows)
  obtain s where s: "map_of (parsed tr) ''College Name'' = Some (Str s)"
    using parsed_name by blast
  have p: "parse_college_row tr = Inr (parsed tr)" using parsed_ok by blast
  have f: "fresh data (parsed tr) = (s \<noteq> [] \<and> Some (Str s) \<notin> set (map name_of data))"
    using named_iff_truthy[OF s] s by (simp add: fresh_def name_of_def)
  show ?case
    using Cons.IH by (simp add: p s f name_seen_eq[OF assms] candidates_def)
qed

lemma candidates_Nil: "candidates [] = []" "candidates_scraping [] = []"
  by (simp_all add: candidates_def candidates_scraping_def)

lemma scrape_listing_page_ver3_eq:
  "scrape_listing_page_ver3 w data page =
     Inr (length (accepted_ver3 w page), data @ accepted_ver3 w page,
          page_calls w LISTING_URL_ver3 page)"
  by (simp add: scrape_listing_page_ver3_def accepted_ver3_def page_rows_def page_calls_def
      append_rows_ver3_eq candidates_def split: option.splits)

lemma scrape_listing_page_scraping_eq:
  "scrape_listing_page_scraping w data page =
     (length (accepted_scraping w page), data @ accepted_scraping w page,
      page_calls w LISTING_URL_scraping page)"
  by (simp add: scrape_listing_page_scraping_def accepted_scraping_def page_rows_def
      page_calls_def append_rows_scraping_eq candidates_scraping_def Let_def
      split: option.splits)

lemma scrape_listing_page_ver4_eq:
  "keyed (colleges_data s) \<Longrightarrow>
   scrape_listing_page_ver4 w s page =
     Inr (length (accepted_ver4 w (colleges_data s) page),
          save_new_rows s (accepted_ver4 w (colleges_data s) page),
          page_calls w LISTING_URL_ver4 page)"
  by (simp add: scrape_listing_page_ver4_def accepted_ver4_def page_rows_def page_calls_def
      new_rows_ver4_eq save_new_rows_def candidates_Nil split: option.splits)

section \<open>The bounded page loop\<close>

lemma streak_snoc: "streak (h @ [(p, c)]) = (if c = 0 then Suc (streak h) else 0)"
  by (simp add: streak_def)

lemma streak_Nil: "streak [] = 0"
  by (simp add: streak_def)

lemma accepted_total_snoc: "accepted_total (h @ [(p, c)]) = accepted_total h + c"
  by (simp add: accepted_total_def)

lemma accepted_total_Nil: "accepted_total [] = 0"
  by (simp add: accepted_total_def)

lemma streak_le_length: "streak h \<le> length h"
  unfolding streak_def by (metis length_rev length_takeWhile_le)

lemma running_start: "running expected_total (start_state s)"
  by (simp add: running_def start_state_def streak_Nil accepted_total_Nil)

lemma ended_of_running:
  assumes "running et st"
  shows "ended et PAGE_LIMIT st"
proof -
  have "history st \<noteq> [] \<Longrightarrow> int (accepted_total (history st)) < et"
    using assms unfolding running_def
    by (metis length_greater_0_conv order_refl take_all)
  then show ?thesis
    using assms unfolding running_def ended_def by auto
qed

lemma running_snoc_empty:
  assumes "running et st" "Suc (empty_pages st) < 3" "int (total_scraped st) < et"
  shows "running et (st\<lparr>scraper := s, history := history st @ [(p, 0)], calls := cl,
                        empty_pages := empty_pages st + 1\<rparr>)"
  using assms unfolding running_def
  by (auto simp: streak_snoc accepted_total_snoc less_Suc_eq le_Suc_eq)

lemma running_snoc_new:
  assumes "running et st" "0 < c" "int (total_scraped st + c) < et"
  shows "running et (st\<lparr>scraper := s, history := history st @ [(p, c)], calls := cl,
                        empty_pages := 0, total_scraped := total_scraped st + c\<rparr>)"
  using assms unfolding running_def
  by (auto simp: streak_snoc accepted_total_snoc less_Suc_eq le_Suc_eq)

lemma ended_streak:
  assumes "running et st" "3 \<le> Suc (empty_pages st)"
  shows "ended et EMPTY_STREAK (st\<lparr>scraper := s, history := history st @ [(p, 0)], calls := cl,
                        empty_pages := empty_pages st + 1\<rparr>)"
proof -
  have "history st \<noteq> []" using assms streak_Nil unfolding running_def by fastforce
  then have "int (accepted_total (history st)) < et"
    using assms unfolding running_def
    by (metis length_greater_0_conv order_refl take_all)
  then show ?thesis
    using assms unfolding running_def ended_def
    by (auto simp: streak_snoc accepted_total_snoc less_Suc_eq le_Suc_eq)
qed

lemma ended_target_empty:
  assumes "running et st" "Suc (empty_pages st) < 3" "et \<le> int (total_scraped st)"
  shows "ended et TARGET_REACHED (st\<lparr>scraper := s, history := history st @ [(p, 0)],
                        calls := cl, empty_pages := empty_pages st + 1\<rparr>)"
  using assms unfolding running_def ended_def
  by (auto simp: streak_snoc accepted_total_snoc less_Suc_eq le_Suc_eq)

lemma ended_target_new:
  assumes "running et st" "0 < c" "et \<le> int (total_scraped st + c)"
  shows "ended et TARGET_REACHED (st\<lparr>scraper := s, history := history st @ [(p, c)],
                        calls := cl, empty_pages := 0,
                        total_scraped := total_scraped st + c\<rparr>)"
  using assms unfolding running_def ended_def
  by (auto simp: streak_snoc accepted_total_snoc less_Suc_eq le_Suc_eq)

lemma run_pages_ended:
  assumes total: "\<And>s p. \<exists>c s' cs. scrape s p = Inr (c, s', cs)"
  shows "running et st \<Longrightarrow> \<exists>r st'. run_pages scrape et pages st = Inr (r, st') \<and> ended et r st'"
proof (induction pages arbitrary: st)
  case Nil
  then show ?case by (simp add: ended_of_running)
next
  case (Cons p ps)
  obtain c s cs where sc: "scrape (scraper st) p = Inr (c, s, cs)"
    using total by blast
  show ?case
  proof (cases "c = 0")
    case True
    let ?st2 = "st\<lparr>scraper := s, history := history st @ [(p, 0)], calls := calls st @ cs,
                   empty_pages := empty_pages st + 1\<rparr>"
    consider (streak) "3 \<le> Suc (empty_pages st)"
      | (target) "Suc (empty_pages st) < 3" "et \<le> int (total_scraped st)"
      | (go) "Suc (empty_pages st) < 3" "int (total_scraped st) < et"
      by linarith
    then show ?thesis
    proof cases
      case streak
      then have "run_pages scrape et (p # ps) st = Inr (EMPTY_STREAK, ?st2)"
        using True by (simp add: sc Let_def)
      then show ?thesis using ended_streak[OF Cons.prems streak] by simp
    next
      case target
      then have "run_pages scrape et (p # ps) st = Inr (TARGET_REACHED, ?st2)"
        using True by (simp add: sc Let_def)
      then show ?thesis using ended_target_empty[OF Cons.prems target] by simp
    next
      case go
      then have "run_pages scrape et (p # ps) st = run_pages scrape et ps ?st2"
        using True by (simp add: sc Let_def)
      then show ?thesis using Cons.IH[OF running_snoc_empty[OF Cons.prems go]] by simp
    qed
  next
    case False
    let ?st2 = "st\<lparr>scraper := s, history := history st @ [(p, c)], calls := calls st @ cs,
                   empty_pages := 0, total_scraped := total_scraped st + c\<rparr>"
    from False have pos: "0 < c" by simp
    show ?thesis
    proof (cases "et \<le> int (total_scraped st + c)")
      case True
      then have "run_pages scrape et (p # ps) st = Inr (TARGET_REACHED, ?st2)"
        using False by (simp add: sc Let_def)
      then show ?thesis using ended_target_new[OF Cons.prems pos True] by simp
    next
      case no: False
      then have lt: "int (total_scraped st + c) < et" by simp
      from no have "run_pages scrape et (p # ps) st = run_pages scrape et ps ?st2"
        using False by (simp add: sc Let_def)
      then show ?thesis using Cons.IH[OF running_snoc_new[OF Cons.prems pos lt]] by simp
    qed
  qed
qed

lemma run_pages_shape:
  assumes sc: "\<And>data p. scrape data p = Inr (length (acc p), data @ acc p, cl p)"
  shows "\<exists>r st' k. run_pages scrape et pages st = Inr (r, st') \<and> k \<le> length pages \<and>
           history st' = history st @ map (\<lambda>p. (p, length (acc p))) (take k pages) \<and>
           scraper st' = scraper st @ concat (map acc (take k pages)) \<and>
           calls st' = calls st @ concat (map cl (take k pages)) \<and>
           (r = PAGE_LIMIT \<longrightarrow> k = length pages) \<and> (r \<noteq> PAGE_LIMIT \<longrightarrow> 0 < k)"
proof (induction pages arbitrary: st)
  case Nil
  then show ?case by simp
next
  case (Cons p ps)
  let ?st1 = "st\<lparr>scraper := scraper st @ acc p,
                 history := history st @ [(p, length (acc p))], calls := calls st @ cl p\<rparr>"
  let ?stop = "\<lambda>r st'. run_pages scrape et (p # ps) st = Inr (r, st') \<and> r \<noteq> PAGE_LIMIT \<and>
       history st' = history st @ [(p, length (acc p))] \<and>
       scraper st' = scraper st @ acc p \<and> calls st' = calls st @ cl p"
  let ?go = "\<lambda>st2. run_pages scrape et (p # ps) st = run_pages scrape et ps st2 \<and>
       history st2 = history st @ [(p, length (acc p))] \<and>
       scraper st2 = scraper st @ acc p \<and> calls st2 = calls st @ cl p"
  have "(\<exists>r st'. ?stop r st') \<or> (\<exists>st2. ?go st2)"
    by (auto simp: sc Let_def)
  then show ?case
  proof
    assume "\<exists>r st'. ?stop r st'"
    then obtain r st' where "?stop r st'" by blast
    then have "run_pages scrape et (p # ps) st = Inr (r, st') \<and> Suc 0 \<le> length (p # ps) \<and>
           history st' = history st @ map (\<lambda>p. (p, length (acc p))) (take (Suc 0) (p # ps)) \<and>
           scraper st' = scraper st @ concat (map acc (take (Suc 0) (p # ps))) \<and>
           calls st' = calls st @ concat (map cl (take (Suc 0) (p # ps))) \<and>
           (r = PAGE_LIMIT \<longrightarrow> Suc 0 = length (p # ps)) \<and> (r \<noteq> PAGE_LIMIT \<longrightarrow> 0 < Suc 0)"
      by simp
    then show ?thesis by blast
  next
    assume "\<exists>st2. ?go st2"
    then obtain st2 where go: "?go st2" by blast
    from Cons.IH[of st2] obtain r st' k where
      k: "run_pages scrape et ps st2 = Inr (r, st')" "k \<le> length ps"
         "history st' = history st2 @ map (\<lambda>p. (p, length (acc p))) (take k ps)"
         "scraper st' = scraper st2 @ concat (map acc (take k ps))"
         "calls st' = calls st2 @ concat (map cl (take k ps))"
         "r = PAGE_LIMIT \<longrightarrow> k = length ps" "r \<noteq> PAGE_LIMIT \<longrightarrow> 0 < k"
      by blast
    with go have "run_pages scrape et (p # ps) st = Inr (r, st') \<and> Suc k \<le> length (p # ps) \<and>
           history st' = history st @ map (\<lambda>p. (p, length (acc p))) (take (Suc k) (p # ps)) \<and>
           scraper st' = scraper st @ concat (map acc (take (Suc k) (p # ps))) \<and>
           calls st' = calls st @ concat (map cl (take (Suc k) (p # ps))) \<and>
           (r = PAGE_LIMIT \<longrightarrow> Suc k = length (p # ps)) \<and> (r \<noteq> PAGE_LIMIT \<longrightarrow> 0 < Suc k)"
      by simp
    then show ?thesis by blast
  qed
qed

section \<open>The runs of versions 3 and of scraping.py\<close>

lemma run_ver3_result:
  "\<exists>r st k. run_ver3 w sp mp et = Inr (r, st) \<and> ended et r st \<and>
     k \<le> length [sp..sp + mp - 1] \<and>
     history st = map (\<lambda>p. (p, length (accepted_ver3 w p))) (take k [sp..sp + mp - 1]) \<and>
     scraper st = concat (map (accepted_ver3 w) (take k [sp..sp + mp - 1])) \<and>
     calls st = concat (map (page_calls w LISTING_URL_ver3) (take k [sp..sp + mp - 1])) \<and>
     (r = PAGE_LIMIT \<longrightarrow> k = length [sp..sp + mp - 1]) \<and> (r \<noteq> PAGE_LIMIT \<longrightarrow> 0 < k)"
proof -
  let ?scrape = "scrape_listing_page_ver3 w"
  have sc: "\<And>data p. ?scrape data p =
      Inr (length (accepted_ver3 w p), data @ accepted_ver3 w p, page_calls w LISTING_URL_ver3 p)"
    by (rule scrape_listing_page_ver3_eq)
  have tot: "\<And>s p. \<exists>c s' cs. ?scrape s p = Inr (c, s', cs)"
    using sc by blast
  from run_pages_ended[of ?scrape et "start_state []" "[sp..sp + mp - 1]", OF tot running_start]
  obtain r st where e: "run_pages ?scrape et [sp..sp + mp - 1] (start_state []) = Inr (r, st)"
      "ended et r st" by blast
  from run_pages_shape[of ?scrape "accepted_ver3 w" "page_calls w LISTING_URL_ver3" et
      "[sp..sp + mp - 1]" "start_state []", OF sc] e(1)
  obtain k where "k \<le> length [sp..sp + mp - 1]"
     "history st = map (\<lambda>p. (p, length (accepted_ver3 w p))) (take k [sp..sp + mp - 1])"
     "scraper st = concat (map (accepted_ver3 w) (take k [sp..sp + mp - 1]))"
     "calls st = concat (map (page_calls w LISTING_URL_ver3) (take k [sp..sp + mp - 1]))"
     "r = PAGE_LIMIT \<longrightarrow> k = length [sp..sp + mp - 1]" "r \<noteq> PAGE_LIMIT \<longrightarrow> 0 < k"
    by (auto simp: start_state_def)
  with e show ?thesis unfolding run_ver3_def by blast
qed

lemma run_scraping_result:
  "\<exists>r st k. run_scraping w mp et = Inr (r, st) \<and> ended et r st \<and>
     k \<le> length [1..mp] \<and>
     history st = map (\<lambda>p. (p, length (accepted_scraping w p))) (take k [1..mp]) \<and>
     scraper st = concat (map (accepted_scraping w) (take k [1..mp])) \<and>
     calls st = concat (map (page_calls w LISTING_URL_scraping) (take k [1..mp])) \<and>
     (r = PAGE_LIMIT \<longrightarrow> k = length [1..mp]) \<and> (r \<noteq> PAGE_LIMIT \<longrightarrow> 0 < k)"
proof -
  let ?scrape = "\<lambda>data page_num. Inr (scrape_listing_page_scraping w data page_num)
                   :: py_error + nat \<times> college list \<times> call list"
  have sc: "\<And>data p. ?scrape data p =
      Inr (length (accepted_scraping w p), data @ accepted_scraping w p,
           page_calls w LISTING_URL_scraping p)"
    by (simp add: scrape_listing_page_scraping_eq)
  have tot: "\<And>s p. \<exists>c s' cs. ?scrape s p = Inr (c, s', cs)"
    using sc by blast
  from run_pages_ended[of ?scrape et "start_state []" "[1..mp]", OF tot running_start]
  obtain r st where e: "run_pages ?scrape et [1..mp] (start_state []) = Inr (r, st)"
      "ended et r st" by blast
  from run_pages_shape[of ?scrape "accepted_scraping w" "page_calls w LISTING_URL_scraping" et
      "[1..mp]" "start_state []", OF sc] e(1)
  obtain k where "k \<le> length [1..mp]"
     "history st = map (\<lambda>p. (p, length (accepted_scraping w p))) (take k [1..mp])"
     "scraper st = concat (map (accepted_scraping w) (take k [1..mp]))"
     "calls st = concat (map (page_calls w LISTING_URL_scraping) (take k [1..mp]))"
     "r = PAGE_LIMIT \<longrightarrow> k = length [1..mp]" "r \<noteq> PAGE_LIMIT \<longrightarrow> 0 < k"
    by (auto simp: start_state_def)
  with e show ?thesis unfolding run_scraping_def by blast
qed

lemma failed_fetch_no_rows:
  "fetch_page w url (page_params p) = None \<Longrightarrow> page_rows w url p = []"
  by (simp add: page_rows_def)

lemma no_rows_none_accepted:
  "page_rows w LISTING_URL_ver3 p = [] \<Longrightarrow> accepted_ver3 w p = []"
  "page_rows w LISTING_URL_scraping p = [] \<Longrightarrow> accepted_scraping w p = []"
  "page_rows w LISTING_URL_ver4 p = [] \<Longrightarrow> accepted_ver4 w data p = []"
  by (simp_all add: accepted_ver3_def accepted_scraping_def accepted_ver4_def candidates_Nil)

section \<open>Sample runs\<close>

lemma run_ver3_bare_first:
  "run_ver3 web_bare_first 1 10 5 =
     Inr (EMPTY_STREAK,
          \<lparr>scraper = [sample_college ''#1'' ''A''], total_scraped = 1, empty_pages = 3,
           history = [(1, 0), (2, 1), (3, 0), (4, 0), (5, 0)],
           calls = [Fetch LISTING_URL_ver3 None, Parse, Fetch LISTING_URL_ver3 (Some 2), Parse,
                    Fetch LISTING_URL_ver3 (Some 3), Fetch LISTING_URL_ver3 (Some 4),
                    Fetch LISTING_URL_ver3 (Some 5)]\<rparr>)"
  by code_simp

lemma run_scraping_bare_first:
  "run_scraping web_bare_first 10 5 =
     Inr (EMPTY_STREAK,
          \<lparr>scraper = [sample_college ''#1'' ''A''], total_scraped = 1, empty_pages = 3,
           history = [(1, 0), (2, 1), (3, 0), (4, 0), (5, 0)],
           calls = [Fetch LISTING_URL_scraping None, Parse, Fetch LISTING_URL_scraping (Some 2),
                    Parse, Fetch LISTING_URL_scraping (Some 3),
                    Fetch LISTING_URL_scraping (Some 4),
                    Fetch LISTING_URL_scraping (Some 5)]\<rparr>)"
  by code_simp

lemma run_ver3_three:
  "run_ver3 web_three 1 10 5 =
     Inr (TARGET_REACHED,
          \<lparr>scraper = [sample_college ''#1'' ''A'', sample_college ''#2'' ''B'',
                      sample_college ''#3'' ''C'', sample_college ''#1'' ''A'',
                      sample_college ''#2'' ''B'', sample_college ''#3'' ''C''],
           total_scraped = 6, empty_pages = 0, history = [(1, 3), (2, 3)],
           calls = [Fetch LISTING_URL_ver3 None, Parse,
                    Fetch LISTING_URL_ver3 (Some 2), Parse]\<rparr>)"
  by code_simp

lemma run_scraping_three:
  "run_scraping web_three 10 5 =
     Inr (TARGET_REACHED,
          \<lparr>scraper = [sample_college ''#1'' ''A'', sample_college ''#2'' ''B'',
                      sample_college ''#3'' ''C'', sample_college ''#1'' ''A'',
                      sample_college ''#2'' ''B'', sample_college ''#3'' ''C''],
           total_scraped = 6, empty_pages = 0, history = [(1, 3), (2, 3)],
           calls = [Fetch LISTING_URL_scraping None, Parse,
                    Fetch LISTING_URL_scraping (Some 2), Parse]\<rparr>)"
  by code_simp

lemma run_ver3_bare_first_two:
  "run_ver3 web_bare_first 1 2 10 =
     Inr (PAGE_LIMIT,
          \<lparr>scraper = [sample_college ''#1'' ''A''], total_scraped = 1, empty_pages = 0,
           history = [(1, 0), (2, 1)],
           calls = [Fetch LISTING_URL_ver3 None, Parse,
                    Fetch LISTING_URL_ver3 (Some 2), Parse]\<rparr>)"
  by code_simp

lemma run_scraping_bare_first_two:
  "run_scraping web_bare_first 2 10 =
     Inr (PAGE_LIMIT,
          \<lparr>scraper = [sample_college ''#1'' ''A''], total_scraped = 1, empty_pages = 0,
           history = [(1, 0), (2, 1)],
           calls = [Fetch LISTING_URL_scraping None, Parse,
                    Fetch LISTING_URL_scraping (Some 2), Parse]\<rparr>)"
  by code_simp

lemma bare_first_missing:
  "structure_missing web_bare_first LISTING_URL_ver3 1"
  "structure_missing web_bare_first LISTING_URL_scraping 1"
  by code_simp+

lemma web_growing_candidates:
  "candidates (page_rows web_growing LISTING_URL_ver4 1) = [sample_college ''#1'' ''A'']"
  "candidates (page_rows web_growing LISTING_URL_ver4 2)
     = [sample_college ''#1'' ''A'', sample_college ''#2'' ''B'']"
  "candidates (page_rows web_growing LISTING_URL_ver4 3)
     = [sample_college ''#1'' ''A'', sample_college ''#2'' ''B'', sample_college ''#3'' ''C'']"
  by code_simp+

lemma web_growing_calls:
  "page_calls web_growing LISTING_URL_ver4 1 = [Fetch LISTING_URL_ver4 None, Parse]"
  "page_calls web_growing LISTING_URL_ver4 2 = [Fetch LISTING_URL_ver4 (Some 2), Parse]"
  "page_calls web_growing LISTING_URL_ver4 3 = [Fetch LISTING_URL_ver4 (Some 3), Parse]"
  "page_calls web_growing LISTING_URL_ver4 4 = [Fetch LISTING_URL_ver4 (Some 4)]"
  by code_simp+

lemma sample_named: "named (sample_college r (c # cs))"
  "name_of (sample_college r n) = Some (Str n)"
  by (simp_all add: named_def name_of_def sample_college_def)

lemma scrape_ver4_growing_1:
  "scrape_listing_page_ver4 web_growing \<lparr>colleges_data = [], excel_file = Missing\<rparr> 1
     = Inr (1, \<lparr>colleges_data = [sample_college ''#1'' ''A''],
                excel_file = Saved [sample_college ''#1'' ''A'']\<rparr>,
            [Fetch LISTING_URL_ver4 None, Parse])"
  by code_simp

lemma scrape_ver4_growing_2:
  "scrape_listing_page_ver4 web_growing
      \<lparr>colleges_data = [sample_college ''#1'' ''A''],
       excel_file = Saved [sample_college ''#1'' ''A'']\<rparr> 2
     = Inr (1, \<lparr>colleges_data = [sample_college ''#1'' ''A'', sample_college ''#2'' ''B''],
                excel_file = Saved [sample_college ''#1'' ''A'', sample_college ''#2'' ''B'']\<rparr>,
            [Fetch LISTING_URL_ver4 (Some 2), Parse])"
  by code_simp

lemma scrape_states_growing_2:
  "scrape_states_ver4 web_growing
      \<lparr>colleges_data = [sample_college ''#1'' ''A''],
       excel_file = Saved [sample_college ''#1'' ''A'']\<rparr> 2
     = Inr [\<lparr>colleges_data = [sample_college ''#1'' ''A''],
             excel_file = Saved [sample_college ''#1'' ''A'']\<rparr>,
            \<lparr>colleges_data = [sample_college ''#1'' ''A'', sample_college ''#2'' ''B''],
             excel_file = Saved [sample_college ''#1'' ''A'']\<rparr>,
            \<lparr>colleges_data = [sample_college ''#1'' ''A'', sample_college ''#2'' ''B''],
             excel_file = Partial\<rparr>,
            \<lparr>colleges_data = [sample_college ''#1'' ''A'', sample_college ''#2'' ''B''],
             excel_file = Saved [sample_college ''#1'' ''A'', sample_college ''#2'' ''B'']\<rparr>]"
  by code_simp

lemma scrape_ver3_growing_1:
  "scrape_listing_page_ver3 web_growing [] 1
     = Inr (1, [sample_college ''#1'' ''A''], [Fetch LISTING_URL_ver3 None, Parse])"
  by code_simp

lemma scrape_scraping_growing_1:
  "scrape_listing_page_scraping web_growing [] 1
     = (1, [sample_college ''#1'' ''A''], [Fetch LISTING_URL_scraping None, Parse])"
  by code_simp

lemma run_steps_ver4_down:
  "run_steps_ver4 5 web_down 1 (start_state \<lparr>colleges_data = [], excel_file = Missing\<rparr>)
     = Inr (True, 3,
            \<lparr>scraper = \<lparr>colleges_data = [], excel_file = Missing\<rparr>,
             total_scraped = 0, empty_pages = 3, history = [(1, 0), (2, 0), (3, 0)],
             calls = [Fetch LISTING_URL_ver4 None, Fetch LISTING_URL_ver4 (Some 2),
                      Fetch LISTING_URL_ver4 (Some 3)]\<rparr>)"
  by code_simp

lemma stream_pages_down:
  "stream_pages web_down ''Arts'' ''https://collegedunia.com/arts/arts-colleges'' [1 .. 5]
      \<lparr>collected = [], stream_empty_pages = 0, stream_history = [], stream_calls = []\<rparr>
     = \<lparr>collected = [], stream_empty_pages = 3, stream_history = [(1, 0), (2, 0), (3, 0)],
        stream_calls = [Fetch ''https://collegedunia.com/arts/arts-colleges'' None,
                        Fetch ''https://collegedunia.com/arts/arts-colleges'' (Some 2),
                        Fetch ''https://collegedunia.com/arts/arts-colleges'' (Some 3)]\<rparr>"
  by code_simp

section \<open>The page step of version 4\<close>

lemma save_new_rows_data: "colleges_data (save_new_rows s nr) = colleges_data s @ nr"
  by (simp add: save_new_rows_def to_excel_def write_excel_def open_excel_def)

lemma save_new_rows_file:
  "excel_file (save_new_rows s nr) =
     (if nr = [] then excel_file s else Saved (colleges_data s @ nr))"
  by (simp add: save_new_rows_def to_excel_def write_excel_def open_excel_def)

lemma save_new_rows_Nil: "save_new_rows s [] = s"
  by (simp add: save_new_rows_def)

lemma fresh_named: "fresh data c \<Longrightarrow> named c"
  by (simp add: fresh_def)

lemma named_keyed: "list_all named data \<Longrightarrow> keyed data"
  by (auto simp: keyed_def named_def list_all_iff split: option.splits)

lemma accepted_ver4_named: "list_all named (accepted_ver4 w data p)"
  by (auto simp: accepted_ver4_def list_all_iff dest: fresh_named)

lemma keyed_append: "keyed (xs @ ys) = (keyed xs \<and> keyed ys)"
  by (simp add: keyed_def)

lemma keyed_accepted: "keyed data \<Longrightarrow> keyed (data @ accepted_ver4 w data p)"
  by (simp add: keyed_append named_keyed accepted_ver4_named)

lemma accepted_ver4_again: "accepted_ver4 w (data @ accepted_ver4 w data p) p = []"
proof -
  have "\<not> fresh (data @ accepted_ver4 w data p) c"
    if "c \<in> set (candidates (page_rows w LISTING_URL_ver4 p))" for c
  proof
    assume f: "fresh (data @ accepted_ver4 w data p) c"
    then have "fresh data c" by (simp add: fresh_def)
    with that have "c \<in> set (accepted_ver4 w data p)" by (simp add: accepted_ver4_def)
    then have "name_of c \<in> set (map name_of (data @ accepted_ver4 w data p))" by simp
    with f show False by (simp add: fresh_def)
  qed
  then show ?thesis by (simp add: accepted_ver4_def filter_empty_conv)
qed

lemma fresh_cong: "map name_of d1 = map name_of d2 \<Longrightarrow> fresh d1 = fresh d2"
  by (rule ext) (simp add: fresh_def)

lemma keyed_cong: "map name_of d1 = map name_of d2 \<Longrightarrow> keyed d1 = keyed d2"
proof -
  assume "map name_of d1 = map name_of d2"
  then have "list_all (\<lambda>x. x \<noteq> None) (map name_of d1) = list_all (\<lambda>x. x \<noteq> None) (map name_of d2)"
    by simp
  then show ?thesis by (simp add: keyed_def list_all_iff)
qed

lemma accepted_ver4_cong:
  "map name_of d1 = map name_of d2 \<Longrightarrow> accepted_ver4 w d1 p = accepted_ver4 w d2 p"
  by (simp add: accepted_ver4_def fresh_cong[of d1 d2])

section \<open>Saving the new rows\<close>

lemma scrape_states_ver4_eq:
  "keyed (colleges_data s) \<Longrightarrow>
   scrape_states_ver4 w s p = Inr (save_states s (accepted_ver4 w (colleges_data s) p))"
  by (simp add: scrape_states_ver4_def accepted_ver4_def page_rows_def new_rows_ver4_eq
      save_states_def candidates_Nil split: option.splits)

lemma save_states_Nil: "save_states s [] = [s]"
  by (simp add: save_states_def)

lemma save_states_new:
  "nr \<noteq> [] \<Longrightarrow>
   save_states s nr =
     [s, s\<lparr>colleges_data := colleges_data s @ nr\<rparr>,
      s\<lparr>colleges_data := colleges_data s @ nr, excel_file := Partial\<rparr>,
      save_new_rows s nr]"
  by (simp add: save_states_def save_new_rows_def to_excel_def write_excel_def open_excel_def
      Let_def)

lemma save_new_rows_new:
  "nr \<noteq> [] \<Longrightarrow>
   save_new_rows s nr = \<lparr>colleges_data = colleges_data s @ nr,
                         excel_file = Saved (colleges_data s @ nr)\<rparr>"
  by (simp add: save_new_rows_def to_excel_def write_excel_def open_excel_def)

lemma durable_save: "durable s \<Longrightarrow> durable (save_new_rows s nr)"
  by (cases "nr = []") (simp_all add: save_new_rows_Nil save_new_rows_new durable_def)

section \<open>The unbounded loop of version 4\<close>

lemma run_body_ver4_eq:
  assumes "keyed (colleges_data (scraper st))"
  shows "run_body_ver4 w p st =
     (if accepted_ver4 w (colleges_data (scraper st)) p = [] then
        Inr (3 \<le> Suc (empty_pages st),
             st\<lparr>history := history st @ [(p, 0)],
                calls := calls st @ page_calls w LISTING_URL_ver4 p,
                empty_pages := Suc (empty_pages st)\<rparr>)
      else
        Inr (False,
             st\<lparr>scraper := save_new_rows (scraper st)
                              (accepted_ver4 w (colleges_data (scraper st)) p),
                history := history st
                  @ [(p, length (accepted_ver4 w (colleges_data (scraper st)) p))],
                calls := calls st @ page_calls w LISTING_URL_ver4 p,
                empty_pages := 0,
                total_scraped := total_scraped st
                  + length (accepted_ver4 w (colleges_data (scraper st)) p)\<rparr>))"
  by (simp add: run_body_ver4_def scrape_listing_page_ver4_eq[OF assms] Let_def
      save_new_rows_Nil)

lemma upto_snoc_nat: "[p .. p + int (Suc k) - 1] = p # [p + 1 .. p + 1 + int k - 1]"
  by (simp add: upto_rec1)

lemma run_steps_ver4_inv:
  assumes step: "\<And>s q. keyed (colleges_data s) \<Longrightarrow> P s \<Longrightarrow>
                    P (save_new_rows s (accepted_ver4 w (colleges_data s) q))"
  shows "keyed (colleges_data (scraper st)) \<Longrightarrow> P (scraper st) \<Longrightarrow>
         empty_pages st = streak (history st) \<Longrightarrow>
     \<exists>b pg st' k. run_steps_ver4 n w p st = Inr (b, pg, st') \<and>
        keyed (colleges_data (scraper st')) \<and> P (scraper st') \<and>
        empty_pages st' = streak (history st') \<and> k \<le> n \<and>
        map fst (history st') = map fst (history st) @ [p .. p + int k - 1] \<and>
        calls st' = calls st @ concat (map (page_calls w LISTING_URL_ver4) [p .. p + int k - 1]) \<and>
        (b \<longrightarrow> 0 < k \<and> pg = p + int k - 1 \<and> 3 \<le> empty_pages st') \<and>
        (\<not> b \<longrightarrow> k = n \<and> pg = p + int n)"
proof (induction n arbitrary: p st)
  case 0
  then have "run_steps_ver4 0 w p st = Inr (False, p, st) \<and>
        keyed (colleges_data (scraper st)) \<and> P (scraper st) \<and>
        empty_pages st = streak (history st) \<and> (0::nat) \<le> 0 \<and>
        map fst (history st) = map fst (history st) @ [p .. p + int 0 - 1] \<and>
        calls st = calls st @ concat (map (page_calls w LISTING_URL_ver4) [p .. p + int 0 - 1]) \<and>
        (False \<longrightarrow> 0 < (0::nat) \<and> p = p + int 0 - 1 \<and> 3 \<le> empty_pages st) \<and>
        (\<not> False \<longrightarrow> (0::nat) = 0 \<and> p = p + int 0)"
    by simp
  then show ?case by blast
next
  case (Suc n)
  let ?acc = "accepted_ver4 w (colleges_data (scraper st)) p"
  note body = run_body_ver4_eq[OF Suc.prems(1), of w p]
  show ?case
  proof (cases "?acc = [] \<and> 3 \<le> Suc (empty_pages st)")
    case True
    let ?st' = "st\<lparr>history := history st @ [(p, 0)],
                calls := calls st @ page_calls w LISTING_URL_ver4 p,
                empty_pages := Suc (empty_pages st)\<rparr>"
    from True body have "run_steps_ver4 (Suc n) w p st = Inr (True, p, ?st')"
      by simp
    moreover have "empty_pages ?st' = streak (history ?st')"
      using Suc.prems(3) by (simp add: streak_snoc)
    ultimately have "run_steps_ver4 (Suc n) w p st = Inr (True, p, ?st') \<and>
        keyed (colleges_data (scraper ?st')) \<and> P (scraper ?st') \<and>
        empty_pages ?st' = streak (history ?st') \<and> Suc 0 \<le> Suc n \<and>
        map fst (history ?st') = map fst (history st) @ [p .. p + int (Suc 0) - 1] \<and>
        calls ?st' = calls st
          @ concat (map (page_calls w LISTING_URL_ver4) [p .. p + int (Suc 0) - 1]) \<and>
        (True \<longrightarrow> 0 < Suc 0 \<and> p = p + int (Suc 0) - 1 \<and> 3 \<le> empty_pages ?st') \<and>
        (\<not> True \<longrightarrow> Suc 0 = Suc n \<and> p = p + int (Suc n))"
      using Suc.prems True by simp
    then show ?thesis by blast
  next
    case False
    define st1 where "st1 =
       (if ?acc = [] then
          st\<lparr>history := history st @ [(p, 0)],
             calls := calls st @ page_calls w LISTING_URL_ver4 p,
             empty_pages := Suc (empty_pages st)\<rparr>
        else
          st\<lparr>scraper := save_new_rows (scraper st) ?acc,
             history := history st @ [(p, length ?acc)],
             calls := calls st @ page_calls w LISTING_URL_ver4 p,
             empty_pages := 0,
             total_scraped := total_scraped st + length ?acc\<rparr>)"
    from False body have go: "run_steps_ver4 (Suc n) w p st = run_steps_ver4 n w (p + 1) st1"
      by (auto simp: st1_def)
    have k1: "keyed (colleges_data (scraper st1))"
      using Suc.prems(1) by (simp add: st1_def save_new_rows_data keyed_accepted)
    have p1: "P (scraper st1)"
      using step[OF Suc.prems(1,2), of p] Suc.prems(2) by (simp add: st1_def)
    have e1: "empty_pages st1 = streak (history st1)"
      using Suc.prems(3) by (simp add: st1_def streak_snoc)
    have h1: "map fst (history st1) = map fst (history st) @ [p]"
      and c1: "calls st1 = calls st @ page_calls w LISTING_URL_ver4 p"
      by (simp_all add: st1_def)
    from Suc.IH[OF k1 p1 e1, of "p + 1"] obtain b pg st' k where
      r: "run_steps_ver4 n w (p + 1) st1 = Inr (b, pg, st')"
        "keyed (colleges_data (scraper st'))" "P (scraper st')"
        "empty_pages st' = streak (history st')" "k \<le> n"
        "map fst (history st') = map fst (history st1) @ [p + 1 .. p + 1 + int k - 1]"
        "calls st' = calls st1
           @ concat (map (page_calls w LISTING_URL_ver4) [p + 1 .. p + 1 + int k - 1])"
        "b \<longrightarrow> 0 < k \<and> pg = p + 1 + int k - 1 \<and> 3 \<le> empty_pages st'"
        "\<not> b \<longrightarrow> k = n \<and> pg = p + 1 + int n"
      by blast
    have "run_steps_ver4 (Suc n) w p st = Inr (b, pg, st') \<and>
        keyed (colleges_data (scraper st')) \<and> P (scraper st') \<and>
        empty_pages st' = streak (history st') \<and> Suc k \<le> Suc n \<and>
        map fst (history st') = map fst (history st) @ [p .. p + int (Suc k) - 1] \<and>
        calls st' = calls st
          @ concat (map (page_calls w LISTING_URL_ver4) [p .. p + int (Suc k) - 1]) \<and>
        (b \<longrightarrow> 0 < Suc k \<and> pg = p + int (Suc k) - 1 \<and> 3 \<le> empty_pages st') \<and>
        (\<not> b \<longrightarrow> Suc k = Suc n \<and> pg = p + int (Suc n))"
      unfolding upto_snoc_nat using go r h1 c1 by auto
    then show ?thesis by blast
  qed
qed

lemma run_loop_of_steps:
  "run_steps_ver4 n w p st = Inr (True, pg, st') \<Longrightarrow> run_loop_ver4 w p st = Some (Inr st')"
proof (induction n arbitrary: p st)
  case 0
  then show ?case by simp
next
  case (Suc n)
  then show ?case
    by (subst run_loop_ver4.simps) (auto split: sum.splits if_splits)
qed

lemma run_steps_ver4_counts:
  assumes "keyed (colleges_data (scraper st))"
    and "run_steps_ver4 n w p st = Inr (b, pg, st')"
    and "\<forall>e\<in>set (history st). page_rows w LISTING_URL_ver4 (fst e) = [] \<longrightarrow> snd e = 0"
  shows "\<forall>e\<in>set (history st'). page_rows w LISTING_URL_ver4 (fst e) = [] \<longrightarrow> snd e = 0"
  using assms
proof (induction n arbitrary: p st)
  case 0
  then show ?case by simp
next
  case (Suc n)
  let ?acc = "accepted_ver4 w (colleges_data (scraper st)) p"
  note body = run_body_ver4_eq[OF Suc.prems(1), of w p]
  have none: "page_rows w LISTING_URL_ver4 p = [] \<longrightarrow> ?acc = []"
    by (simp add: no_rows_none_accepted)
  show ?case
  proof (cases "?acc = []")
    case True
    let ?st1 = "st\<lparr>history := history st @ [(p, 0)],
                calls := calls st @ page_calls w LISTING_URL_ver4 p,
                empty_pages := Suc (empty_pages st)\<rparr>"
    have h: "\<forall>e\<in>set (history ?st1). page_rows w LISTING_URL_ver4 (fst e) = [] \<longrightarrow> snd e = 0"
      using Suc.prems(3) by simp
    show ?thesis
    proof (cases "3 \<le> Suc (empty_pages st)")
      case stop: True
      with True body Suc.prems(2) have "st' = ?st1" by auto
      with h show ?thesis by simp
    next
      case False
      with True body Suc.prems(2) have "run_steps_ver4 n w (p + 1) ?st1 = Inr (b, pg, st')"
        by simp
      moreover have "keyed (colleges_data (scraper ?st1))" using Suc.prems(1) by simp
      ultimately show ?thesis using Suc.IH h by blast
    qed
  next
    case False
    let ?st1 = "st\<lparr>scraper := save_new_rows (scraper st) ?acc,
                history := history st @ [(p, length ?acc)],
                calls := calls st @ page_calls w LISTING_URL_ver4 p,
                empty_pages := 0,
                total_scraped := total_scraped st + length ?acc\<rparr>"
    have h: "\<forall>e\<in>set (history ?st1). page_rows w LISTING_URL_ver4 (fst e) = [] \<longrightarrow> snd e = 0"
      using Suc.prems(3) none False by simp
    from False body Suc.prems(2) have "run_steps_ver4 n w (p + 1) ?st1 = Inr (b, pg, st')"
      by simp
    moreover have "keyed (colleges_data (scraper ?st1))"
      using Suc.prems(1) by (simp add: save_new_rows_data keyed_accepted)
    ultimately show ?thesis using Suc.IH h by blast
  qed
qed


section \<open>The stream loop of stage 1\<close>

lemma stream_pages_shape:
  "\<exists>k\<le>length pages.
      stream_history (stream_pages w stream url pages st)
        = stream_history st @ map (\<lambda>q. (q, count_stage1 w url q)) (take k pages) \<and>
      stream_calls (stream_pages w stream url pages st)
        = stream_calls st @ concat (map (page_calls w url) (take k pages)) \<and>
      (stream_empty_pages st = streak (stream_history st) \<longrightarrow>
         stream_empty_pages (stream_pages w stream url pages st)
           = streak (stream_history (stream_pages w stream url pages st)))"
proof (induction pages arbitrary: st)
  case Nil
  then show ?case by simp
next
  case (Cons p ps)
  let ?c = "count_stage1 w url p"
  let ?stop = "\<lambda>st'. stream_pages w stream url (p # ps) st = st'"
  let ?upd = "\<lambda>st'. stream_history st' = stream_history st @ [(p, ?c)] \<and>
       stream_calls st' = stream_calls st @ page_calls w url p \<and>
       (stream_empty_pages st = streak (stream_history st) \<longrightarrow>
          stream_empty_pages st' = streak (stream_history st'))"
  have "(\<exists>st'. ?stop st' \<and> ?upd st') \<or>
        (\<exists>st1. stream_pages w stream url (p # ps) st = stream_pages w stream url ps st1 \<and> ?upd st1)"
    by (cases "fetch_page w url (page_params p)")
       (auto simp: count_stage1_def page_calls_def Let_def streak_snoc)
  then show ?case
  proof
    assume "\<exists>st'. ?stop st' \<and> ?upd st'"
    then have "Suc 0 \<le> length (p # ps) \<and>
      stream_history (stream_pages w stream url (p # ps) st)
        = stream_history st @ map (\<lambda>q. (q, count_stage1 w url q)) (take (Suc 0) (p # ps)) \<and>
      stream_calls (stream_pages w stream url (p # ps) st)
        = stream_calls st @ concat (map (page_calls w url) (take (Suc 0) (p # ps))) \<and>
      (stream_empty_pages st = streak (stream_history st) \<longrightarrow>
         stream_empty_pages (stream_pages w stream url (p # ps) st)
           = streak (stream_history (stream_pages w stream url (p # ps) st)))"
      by auto
    then show ?thesis by blast
  next
    assume "\<exists>st1. stream_pages w stream url (p # ps) st = stream_pages w stream url ps st1
              \<and> ?upd st1"
    then obtain st1 where
      go: "stream_pages w stream url (p # ps) st = stream_pages w stream url ps st1"
      and u: "?upd st1" by blast
    from Cons.IH[of st1] obtain k where k: "k \<le> length ps"
      "stream_history (stream_pages w stream url ps st1)
        = stream_history st1 @ map (\<lambda>q. (q, count_stage1 w url q)) (take k ps)"
      "stream_calls (stream_pages w stream url ps st1)
        = stream_calls st1 @ concat (map (page_calls w url) (take k ps))"
      "stream_empty_pages st1 = streak (stream_history st1) \<longrightarrow>
         stream_empty_pages (stream_pages w stream url ps st1)
           = streak (stream_history (stream_pages w stream url ps st1))"
      by blast
    have "Suc k \<le> length (p # ps) \<and>
      stream_history (stream_pages w stream url (p # ps) st)
        = stream_history st @ map (\<lambda>q. (q, count_stage1 w url q)) (take (Suc k) (p # ps)) \<and>
      stream_calls (stream_pages w stream url (p # ps) st)
        = stream_calls st @ concat (map (page_calls w url) (take (Suc k) (p # ps))) \<and>
      (stream_empty_pages st = streak (stream_history st) \<longrightarrow>
         stream_empty_pages (stream_pages w stream url (p # ps) st)
           = streak (stream_history (stream_pages w stream url (p # ps) st)))"
      unfolding go using k u by simp
    then show ?thesis by blast
  qed
qed

section \<open>Stores reached by page processing\<close>

lemma named_map_cong:
  "map name_of xs = map name_of ys \<Longrightarrow> list_all named xs = list_all named ys"
proof (induction xs arbitrary: ys)
  case Nil
  then show ?case by simp
next
  case (Cons x xs)
  then obtain y ys' where ys: "ys = y # ys'" by (cases ys) auto
  with Cons.prems have "name_of x = name_of y" "map name_of xs = map name_of ys'" by simp_all
  with Cons.IH[of ys'] ys show ?case by (simp add: named_def)
qed

lemma blank_as_nan_name: "named c \<Longrightarrow> name_of (map (\<lambda>kv. (fst kv, blank_to_nan (snd kv))) c) = name_of c"
proof -
  assume n: "named c"
  have "map_of (map (\<lambda>kv. (fst kv, blank_to_nan (snd kv))) c) k
          = map_option blank_to_nan (map_of c k)" for k
    by (induction c) auto
  with n show ?thesis
    by (auto simp: named_def name_of_def split: option.splits cell.splits)
qed

lemma blank_as_nan_keeps_names:
  "list_all named rows \<Longrightarrow> map name_of (read_blank_as_nan rows) = map name_of rows"
  by (induction rows) (simp_all add: read_blank_as_nan_def blank_as_nan_name)

lemma reach_ver3_named: "reach_ver3 w data \<Longrightarrow> list_all named data"
  by (induction rule: reach_ver3.induct)
     (auto simp: scrape_listing_page_ver3_eq accepted_ver3_def list_all_iff)

lemma reach_scraping_named: "reach_scraping w data \<Longrightarrow> list_all named data"
  by (induction rule: reach_scraping.induct)
     (auto simp: scrape_listing_page_scraping_eq accepted_scraping_def list_all_iff)

lemma reach_ver4_named:
  assumes rd: "\<And>rows. list_all named rows \<Longrightarrow> map name_of (read_excel rows) = map name_of rows"
  shows "reach_ver4 read_excel w s \<Longrightarrow>
     list_all named (colleges_data s) \<and> list_all named (file_rows (excel_file s))"
proof (induction rule: reach_ver4.induct)
  case reach_ver4_start
  then show ?case by simp
next
  case (reach_ver4_page s page count s' cs)
  then have k: "keyed (colleges_data s)" by (simp add: named_keyed)
  from reach_ver4_page(2) scrape_listing_page_ver4_eq[OF k, of w page]
  have s': "s' = save_new_rows s (accepted_ver4 w (colleges_data s) page)" by simp
  have "list_all named (accepted_ver4 w (colleges_data s) page)"
    by (rule accepted_ver4_named)
  with reach_ver4_page.IH show ?case
    unfolding s' by (simp add: save_new_rows_data save_new_rows_file)
next
  case (reach_ver4_load s s')
  show ?case
  proof (cases "excel_file s")
    case Missing
    with reach_ver4_load(2) show ?thesis by (auto simp: init_ver4_def)
  next
    case Partial
    with reach_ver4_load(2) show ?thesis by (simp add: init_ver4_def)
  next
    case (Saved rows)
    with reach_ver4_load.IH have n: "list_all named rows" by simp
    from Saved reach_ver4_load(2)
    have s': "s' = \<lparr>colleges_data = read_excel rows, excel_file = Saved rows\<rparr>"
      by (simp add: init_ver4_def)
    from named_map_cong[OF rd[OF n]] n show ?thesis unfolding s' by simp
  qed
qed

section \<open>Loading with the default reader\<close>

lemma read_cell_name:
  "name_of (map (\<lambda>kv. (fst kv, read_cell (snd kv))) c) = map_option read_cell (name_of c)"
  by (induction c) (auto simp: name_of_def)

text \<open>The default reader keeps the names that are not in its list of NA values.\<close>

lemma read_excel_default_names:
  "\<forall>c\<in>set rows. \<forall>s. name_of c = Some (Str s) \<longrightarrow> s \<notin> set STR_NA_VALUES \<Longrightarrow>
   map name_of (read_excel_default rows) = map name_of rows"
proof (induction rows)
  case Nil
  then show ?case by (simp add: read_excel_default_def)
next
  case (Cons c rows)
  have "map_option read_cell (name_of c) = name_of c"
  proof (cases "name_of c")
    case None
    then show ?thesis by simp
  next
    case (Some v)
    with Cons.prems show ?thesis by (cases v) auto
  qed
  with Cons show ?case by (simp add: read_excel_default_def read_cell_name)
qed

text \<open>
  Where the resumed scraper does tell the stored colleges from the new ones: when no name
  in the file is in the reader's list of NA values, a page is accepted exactly in its
  candidates with a name that is not among the names written.
\<close>

lemma load_default_accepts_new:
  assumes k: "keyed rows"
    and n: "\<forall>c\<in>set rows. \<forall>s. name_of c = Some (Str s) \<longrightarrow> s \<notin> set STR_NA_VALUES"
  shows "accepted_ver4 w (read_excel_default rows) p
           = filter (fresh rows) (candidates (page_rows w LISTING_URL_ver4 p))"
    and "scrape_listing_page_ver4 w
            \<lparr>colleges_data = read_excel_default rows, excel_file = Saved rows\<rparr> p
           = Inr (length (filter (fresh rows) (candidates (page_rows w LISTING_URL_ver4 p))),
                  save_new_rows \<lparr>colleges_data = read_excel_default rows, excel_file = Saved rows\<rparr>
                    (filter (fresh rows) (candidates (page_rows w LISTING_URL_ver4 p))),
                  page_calls w LISTING_URL_ver4 p)"
proof -
  note m = read_excel_default_names[OF n]
  show a: "accepted_ver4 w (read_excel_default rows) p
           = filter (fresh rows) (candidates (page_rows w LISTING_URL_ver4 p))"
    using accepted_ver4_cong[OF m, of w p] by (simp add: accepted_ver4_def)
  have "keyed (read_excel_default rows)" using k keyed_cong[OF m] by simp
  then have "keyed (colleges_data \<lparr>colleges_data = read_excel_default rows, excel_file = Saved rows\<rparr>)"
    by simp
  from scrape_listing_page_ver4_eq[OF this, of w p] a
  show "scrape_listing_page_ver4 w
            \<lparr>colleges_data = read_excel_default rows, excel_file = Saved rows\<rparr> p
           = Inr (length (filter (fresh rows) (candidates (page_rows w LISTING_URL_ver4 p))),
                  save_new_rows \<lparr>colleges_data = read_excel_default rows, excel_file = Saved rows\<rparr>
                    (filter (fresh rows) (candidates (page_rows w LISTING_URL_ver4 p))),
                  page_calls w LISTING_URL_ver4 p)"
    by simp
qed

text \<open>The two sessions on the listing with the college named NA.\<close>

lemma first_session_na:
  "scrape_listing_page_ver4 web_na \<lparr>colleges_data = [], excel_file = Missing\<rparr> 1
     = Inr (2, \<lparr>colleges_data = [sample_college ''#1'' ''NA'', sample_college ''#2'' ''B''],
                excel_file = Saved [sample_college ''#1'' ''NA'', sample_college ''#2'' ''B'']\<rparr>,
            [Fetch LISTING_URL_ver4 None, Parse])"
  by code_simp

lemma reload_na:
  "read_excel_default [sample_college ''#1'' ''NA'', sample_college ''#2'' ''B'']
     = [loaded_college ''#1'' NaN, loaded_college ''#2'' (Str ''B'')]"
  by code_simp

lemma candidates_na:
  "candidates (page_rows web_na LISTING_URL_ver4 2)
     = [sample_college ''#1'' ''NA'', sample_college ''#2'' ''B'', sample_college ''#3'' ''C'']"
  by code_simp

lemma second_session_na:
  "scrape_listing_page_ver4 web_na
      \<lparr>colleges_data = [loaded_college ''#1'' NaN, loaded_college ''#2'' (Str ''B'')],
       excel_file = Saved [sample_college ''#1'' ''NA'', sample_college ''#2'' ''B'']\<rparr> 2
     = Inr (2,
            \<lparr>colleges_data = [loaded_college ''#1'' NaN, loaded_college ''#2'' (Str ''B''),
                              sample_college ''#1'' ''NA'', sample_college ''#3'' ''C''],
             excel_file = Saved [loaded_college ''#1'' NaN, loaded_college ''#2'' (Str ''B''),
                                 sample_college ''#1'' ''NA'', sample_college ''#3'' ''C'']\<rparr>,
            [Fetch LISTING_URL_ver4 (Some 2), Parse])"
  by code_simp

lemma fresh_na:
  "filter (fresh [sample_college ''#1'' ''NA'', sample_college ''#2'' ''B''])
      [sample_college ''#1'' ''NA'', sample_college ''#2'' ''B'', sample_college ''#3'' ''C'']
     = [sample_college ''#3'' ''C'']"
  "filter (fresh [loaded_college ''#1'' NaN, loaded_college ''#2'' (Str ''B'')])
      [sample_college ''#1'' ''NA'', sample_college ''#2'' ''B'', sample_college ''#3'' ''C'']
     = [sample_college ''#1'' ''NA'', sample_college ''#3'' ''C'']"
  by (simp_all add: fresh_def named_def name_of_def sample_college_def loaded_college_def)

section \<open>C10: parsing a row is total and keeps the shape\<close>

text \<open>
  C10. For every row, \<^verbatim>\<open>parse_college_row\<close> (both versions) returns a record with exactly
  the eight fixed keys, every value a string; the version that reads the \<open>title\<close>
  attribute by subscript never raises. For a row with fewer than two top-level cells the
  record has all eight values empty, and the row loops of all three scrapers skip such a
  row: it is neither stored nor counted.
\<close>

theorem parse_college_row_shape:
  "(\<exists>d. parse_college_row tr = Inr d \<and> map fst d = FIELDS \<and> (\<forall>x\<in>set d. \<exists>s. snd x = Str s))
   \<and> map fst (parse_college_row_scraping tr) = FIELDS
   \<and> (\<forall>x\<in>set (parse_college_row_scraping tr). \<exists>s. snd x = Str s)
   \<and> (length (find_all_children ''td'' tr) < 2 \<longrightarrow>
        parse_college_row tr = Inr (map (\<lambda>k. (k, Str [])) FIELDS)
        \<and> parse_college_row_scraping tr = map (\<lambda>k. (k, Str [])) FIELDS
        \<and> append_rows_ver3 (tr # rows) count data = append_rows_ver3 rows count data
        \<and> append_rows_scraping (tr # rows) count data = append_rows_scraping rows count data
        \<and> new_rows_ver4 data (tr # rows) count new_rows = new_rows_ver4 data rows count new_rows)"
proof -
  have blank: "map (\<lambda>k. (k, Str [])) FIELDS = blank_college"
    by (simp add: FIELDS_def blank_college_def)
  obtain d where d: "parse_college_row tr = Inr d" "record_ok d"
    using parse_college_row_ok[of tr] by blast
  have a: "\<exists>d. parse_college_row tr = Inr d \<and> map fst d = FIELDS \<and> (\<forall>x\<in>set d. \<exists>s. snd x = Str s)"
    using d unfolding record_ok_def by blast
  have b: "map fst (parse_college_row_scraping tr) = FIELDS"
    and c: "\<forall>x\<in>set (parse_college_row_scraping tr). \<exists>s. snd x = Str s"
    using parse_college_row_scraping_ok[of tr] unfolding record_ok_def by blast+
  have e: "append_rows_ver3 (tr # rows) count data = append_rows_ver3 rows count data"
    "append_rows_scraping (tr # rows) count data = append_rows_scraping rows count data"
    "new_rows_ver4 data (tr # rows) count new_rows = new_rows_ver4 data rows count new_rows"
    if "length (find_all_children ''td'' tr) < 2"
    using that by (simp_all add: short_row_blank blank_name)
  show ?thesis
    unfolding blank using a b c e short_row_blank[of tr] by blast
qed

text \<open>The statement at a row with a single cell.\<close>

theorem parse_college_row_shape_witness:
  "length (find_all_children ''td'' short_row) < 2
   \<and> parse_college_row short_row = Inr blank_college
   \<and> parse_college_row_scraping short_row = blank_college
   \<and> map fst blank_college = FIELDS
   \<and> append_rows_ver3 [short_row] 0 [] = Inr (0, [])
   \<and> append_rows_scraping [short_row] 0 [] = (0, [])
   \<and> new_rows_ver4 [] [short_row] 0 [] = Inr (0, [])"
proof -
  have short: "length (find_all_children ''td'' short_row) < 2"
    by (simp add: short_row_def)
  have blank: "map (\<lambda>k. (k, Str [])) FIELDS = blank_college"
    by (simp add: FIELDS_def blank_college_def)
  have keys: "map fst blank_college = FIELDS"
    by (simp add: FIELDS_def blank_college_def)
  from parse_college_row_shape[of short_row "[]" 0 "[]" "[]"] short blank keys
  show ?thesis by auto
qed

section \<open>C1: the stop on three empty pages in a row\<close>

text \<open>
  C1. Every run of the page loop (version 3 and scraping.py) returns, and its history is
  the counts of the pages of its range, in order, up to the page it stopped at. The
  counter of empty pages is at every end the empty streak of the history, so a page with
  at least one accepted row puts it back to zero. The run ends by the
  \<^verbatim>\<open>break\<close> on empty pages exactly when the history ends with three pages of count
  zero; the streak never exceeds three, and no proper prefix of the history has a streak
  of three, so the stop is at the third such page and not before. A page whose request
  failed counts zero like a page without accepted rows.
\<close>

theorem empty_streak_stop:
  "(\<exists>r st. run_ver3 w start_page max_pages expected_total = Inr (r, st)
      \<and> history st = map (\<lambda>p. (p, length (accepted_ver3 w p)))
                       (take (length (history st)) [start_page..start_page + max_pages - 1])
      \<and> empty_pages st = streak (history st)
      \<and> (r = EMPTY_STREAK \<longleftrightarrow> streak (history st) = 3)
      \<and> streak (history st) \<le> 3
      \<and> (\<forall>n<length (history st). streak (take n (history st)) < 3))
   \<and> (\<exists>r st. run_scraping w max_pages expected_total = Inr (r, st)
      \<and> history st = map (\<lambda>p. (p, length (accepted_scraping w p)))
                       (take (length (history st)) [1..max_pages])
      \<and> empty_pages st = streak (history st)
      \<and> (r = EMPTY_STREAK \<longleftrightarrow> streak (history st) = 3)
      \<and> streak (history st) \<le> 3
      \<and> (\<forall>n<length (history st). streak (take n (history st)) < 3))
   \<and> (fetch_page w LISTING_URL_ver3 (page_params p) = None \<longrightarrow> accepted_ver3 w p = [])
   \<and> (fetch_page w LISTING_URL_scraping (page_params p) = None \<longrightarrow> accepted_scraping w p = [])"
proof -
  obtain r st k where a: "run_ver3 w start_page max_pages expected_total = Inr (r, st)"
    "ended expected_total r st" "k \<le> length [start_page..start_page + max_pages - 1]"
    "history st = map (\<lambda>p. (p, length (accepted_ver3 w p)))
        (take k [start_page..start_page + max_pages - 1])"
    using run_ver3_result by blast
  from a(3,4) have "length (history st) = k" by simp
  with a have A: "\<exists>r st. run_ver3 w start_page max_pages expected_total = Inr (r, st)
      \<and> history st = map (\<lambda>p. (p, length (accepted_ver3 w p)))
                       (take (length (history st)) [start_page..start_page + max_pages - 1])
      \<and> empty_pages st = streak (history st)
      \<and> (r = EMPTY_STREAK \<longleftrightarrow> streak (history st) = 3)
      \<and> streak (history st) \<le> 3
      \<and> (\<forall>n<length (history st). streak (take n (history st)) < 3)"
    unfolding ended_def by blast
  obtain r' st' k' where b: "run_scraping w max_pages expected_total = Inr (r', st')"
    "ended expected_total r' st'" "k' \<le> length [1..max_pages]"
    "history st' = map (\<lambda>p. (p, length (accepted_scraping w p))) (take k' [1..max_pages])"
    using run_scraping_result by blast
  from b(3,4) have "length (history st') = k'" by simp
  with b have B: "\<exists>r st. run_scraping w max_pages expected_total = Inr (r, st)
      \<and> history st = map (\<lambda>p. (p, length (accepted_scraping w p)))
                       (take (length (history st)) [1..max_pages])
      \<and> empty_pages st = streak (history st)
      \<and> (r = EMPTY_STREAK \<longleftrightarrow> streak (history st) = 3)
      \<and> streak (history st) \<le> 3
      \<and> (\<forall>n<length (history st). streak (take n (history st)) < 3)"
    unfolding ended_def by blast
  show ?thesis
    using A B by (simp add: failed_fetch_no_rows no_rows_none_accepted)
qed

text \<open>A run where the first page has no table, the second lists one college and every
  later request fails: the counter is reset by page 2 and the run stops at page 5.\<close>

theorem empty_streak_stop_witness:
  "fst (projr (run_ver3 web_bare_first 1 10 5)) = EMPTY_STREAK
   \<and> history (snd (projr (run_ver3 web_bare_first 1 10 5)))
       = [(1, 0), (2, 1), (3, 0), (4, 0), (5, 0)]
   \<and> empty_pages (snd (projr (run_ver3 web_bare_first 1 10 5))) = 3
   \<and> streak [(1, 0), (2, 1), (3, 0), (4, 0), (5, 0)] = 3
   \<and> streak (take 4 [(1, 0), (2, 1), (3, 0), (4, 0), (5, 0)]) = 2
   \<and> fst (projr (run_scraping web_bare_first 10 5)) = EMPTY_STREAK
   \<and> history (snd (projr (run_scraping web_bare_first 10 5)))
       = [(1, 0), (2, 1), (3, 0), (4, 0), (5, 0)]
   \<and> fetch_page web_bare_first LISTING_URL_ver3 (page_params 3) = None
   \<and> accepted_ver3 web_bare_first 3 = []"
proof -
  let ?h = "[(1::int, 0::nat), (2, 1), (3, 0), (4, 0), (5, 0)]"
  let ?run = "run_ver3 web_bare_first 1 10 5"
  have f: "fetch_page web_bare_first LISTING_URL_ver3 (page_params 3) = None"
    by (simp add: fetch_page_def web_bare_first_def page_params_def)
  from empty_streak_stop[of web_bare_first 1 10 5 3]
  obtain r st where rs: "?run = Inr (r, st)"
      "(r = EMPTY_STREAK) = (streak (history st) = 3)"
    and acc: "fetch_page web_bare_first LISTING_URL_ver3 (page_params 3) = None
              \<longrightarrow> accepted_ver3 web_bare_first 3 = []"
    by (elim conjE exE) (rule that; assumption)
  from rs(1) have r: "r = fst (projr ?run)" and st: "st = snd (projr ?run)"
    by simp_all
  have s3: "streak ?h = 3"
    using rs(2) unfolding r st by (simp add: run_ver3_bare_first)
  have s4: "streak (take 4 ?h) = 2" by (simp add: streak_def)
  from acc f have a: "accepted_ver3 web_bare_first 3 = []" by simp
  show ?thesis
    using s3 s4 a f by (simp add: run_ver3_bare_first run_scraping_bare_first)
qed

section \<open>C6: the stop on the expected total\<close>

text \<open>
  C6. Every run (version 3 and scraping.py) returns; its total is the sum of the counts of
  the pages it processed and the store holds every accepted row of every one of these
  pages, the last included: nothing is cut off at the target. The run ends by the
  \<^verbatim>\<open>break\<close> on the expected total exactly when it processed a page and the total
  has reached the target; at no earlier page had the total reached it, so the stop is at
  the end of the first page on which the total is at least the target.
\<close>

theorem target_reached_whole_pages:
  "(\<exists>r st. run_ver3 w start_page max_pages expected_total = Inr (r, st)
      \<and> history st = map (\<lambda>p. (p, length (accepted_ver3 w p))) (map fst (history st))
      \<and> scraper st = concat (map (accepted_ver3 w) (map fst (history st)))
      \<and> total_scraped st = accepted_total (history st)
      \<and> length (scraper st) = accepted_total (history st)
      \<and> (r = TARGET_REACHED \<longleftrightarrow>
           history st \<noteq> [] \<and> expected_total \<le> int (accepted_total (history st)))
      \<and> (\<forall>n. 0 < n \<and> n < length (history st) \<longrightarrow>
             int (accepted_total (take n (history st))) < expected_total))
   \<and> (\<exists>r st. run_scraping w max_pages expected_total = Inr (r, st)
      \<and> history st = map (\<lambda>p. (p, length (accepted_scraping w p))) (map fst (history st))
      \<and> scraper st = concat (map (accepted_scraping w) (map fst (history st)))
      \<and> total_scraped st = accepted_total (history st)
      \<and> length (scraper st) = accepted_total (history st)
      \<and> (r = TARGET_REACHED \<longleftrightarrow>
           history st \<noteq> [] \<and> expected_total \<le> int (accepted_total (history st)))
      \<and> (\<forall>n. 0 < n \<and> n < length (history st) \<longrightarrow>
             int (accepted_total (take n (history st))) < expected_total))"
proof -
  have len: "length (concat (map acc ps)) = accepted_total (map (\<lambda>p. (p, length (acc p))) ps)"
    for acc :: "int \<Rightarrow> college list" and ps
    by (induction ps) (simp_all add: accepted_total_def)
  have fsts: "map fst (map (\<lambda>p. (p, length (acc p))) ps) = ps"
    for acc :: "int \<Rightarrow> college list" and ps
    by (simp add: comp_def)
  obtain r st k where a: "run_ver3 w start_page max_pages expected_total = Inr (r, st)"
    "ended expected_total r st"
    "history st = map (\<lambda>p. (p, length (accepted_ver3 w p)))
        (take k [start_page..start_page + max_pages - 1])"
    "scraper st = concat (map (accepted_ver3 w) (take k [start_page..start_page + max_pages - 1]))"
    using run_ver3_result by blast
  have A: "\<exists>r st. run_ver3 w start_page max_pages expected_total = Inr (r, st)
      \<and> history st = map (\<lambda>p. (p, length (accepted_ver3 w p))) (map fst (history st))
      \<and> scraper st = concat (map (accepted_ver3 w) (map fst (history st)))
      \<and> total_scraped st = accepted_total (history st)
      \<and> length (scraper st) = accepted_total (history st)
      \<and> (r = TARGET_REACHED \<longleftrightarrow>
           history st \<noteq> [] \<and> expected_total \<le> int (accepted_total (history st)))
      \<and> (\<forall>n. 0 < n \<and> n < length (history st) \<longrightarrow>
             int (accepted_total (take n (history st))) < expected_total)"
  proof (intro exI conjI)
    show "run_ver3 w start_page max_pages expected_total = Inr (r, st)" by (rule a)
    show "history st = map (\<lambda>p. (p, length (accepted_ver3 w p))) (map fst (history st))"
      by (simp only: a(3) fsts)
    show "scraper st = concat (map (accepted_ver3 w) (map fst (history st)))"
      by (simp only: a(3,4) fsts)
    show "length (scraper st) = accepted_total (history st)"
      by (simp only: a(3,4) len)
  qed (use a(2) in \<open>simp_all add: ended_def\<close>)
  obtain r' st' k' where b: "run_scraping w max_pages expected_total = Inr (r', st')"
    "ended expected_total r' st'"
    "history st' = map (\<lambda>p. (p, length (accepted_scraping w p))) (take k' [1..max_pages])"
    "scraper st' = concat (map (accepted_scraping w) (take k' [1..max_pages]))"
    using run_scraping_result by blast
  have B: "\<exists>r st. run_scraping w max_pages expected_total = Inr (r, st)
      \<and> history st = map (\<lambda>p. (p, length (accepted_scraping w p))) (map fst (history st))
      \<and> scraper st = concat (map (accepted_scraping w) (map fst (history st)))
      \<and> total_scraped st = accepted_total (history st)
      \<and> length (scraper st) = accepted_total (history st)
      \<and> (r = TARGET_REACHED \<longleftrightarrow>
           history st \<noteq> [] \<and> expected_total \<le> int (accepted_total (history st)))
      \<and> (\<forall>n. 0 < n \<and> n < length (history st) \<longrightarrow>
             int (accepted_total (take n (history st))) < expected_total)"
  proof (intro exI conjI)
    show "run_scraping w max_pages expected_total = Inr (r', st')" by (rule b)
    show "history st' = map (\<lambda>p. (p, length (accepted_scraping w p))) (map fst (history st'))"
      by (simp only: b(3) fsts)
    show "scraper st' = concat (map (accepted_scraping w) (map fst (history st')))"
      by (simp only: b(3,4) fsts)
    show "length (scraper st') = accepted_total (history st')"
      by (simp only: b(3,4) len)
  qed (use b(2) in \<open>simp_all add: ended_def\<close>)
  from A B show ?thesis by (rule conjI)
qed

text \<open>Target 5 with three accepted rows per page: the run stops on page 2 with 6 stored.\<close>

theorem target_reached_whole_pages_witness:
  "fst (projr (run_ver3 web_three 1 10 5)) = TARGET_REACHED
   \<and> history (snd (projr (run_ver3 web_three 1 10 5))) = [(1, 3), (2, 3)]
   \<and> length (scraper (snd (projr (run_ver3 web_three 1 10 5)))) = 6
   \<and> total_scraped (snd (projr (run_ver3 web_three 1 10 5))) = 6
   \<and> accepted_total (take 1 [(1, 3), (2, 3)]) = 3
   \<and> fst (projr (run_scraping web_three 10 5)) = TARGET_REACHED
   \<and> history (snd (projr (run_scraping web_three 10 5))) = [(1, 3), (2, 3)]
   \<and> length (scraper (snd (projr (run_scraping web_three 10 5)))) = 6"
proof -
  let ?h = "[(1::int, 3::nat), (2, 3)]"
  let ?run = "run_ver3 web_three 1 10 5"
  from target_reached_whole_pages[of web_three 1 10 5]
  obtain r st where rs: "?run = Inr (r, st)"
      "length (scraper st) = accepted_total (history st)"
      "total_scraped st = accepted_total (history st)"
    by (elim conjE exE) (rule that; assumption)
  from rs(1) have st: "st = snd (projr ?run)" by simp
  have h: "history (snd (projr ?run)) = ?h" by (simp add: run_ver3_three)
  have t: "accepted_total ?h = 6" "accepted_total (take 1 ?h) = 3"
    by (simp_all add: accepted_total_def)
  from rs(2,3) have l: "length (scraper (snd (projr ?run))) = 6"
      "total_scraped (snd (projr ?run)) = 6"
    unfolding st h t by simp_all
  show ?thesis
    using l t(2) h by (simp add: run_ver3_three run_scraping_three)
qed

section \<open>C2: a page without a listing table\<close>

text \<open>
  C2 (as amended). A fetched page without any listing table is an empty page, on the first
  page as on every other: \<^verbatim>\<open>scrape_listing_page\<close> returns the count 0 and leaves the
  store as it is. No exit of the run belongs to such a page. When it is the first page of
  a run of at least one page, the store is empty after it, the counter of empty pages is
  at one, and the run does what it does after any first page that gave nothing: with a
  positive expected total it goes on with the remaining pages of its range, and with an
  expected total of zero or less it ends by the \<^verbatim>\<open>break\<close> on the expected total.
\<close>

theorem no_table_is_empty_page:
  "(structure_missing w LISTING_URL_ver3 p \<longrightarrow>
      scrape_listing_page_ver3 w data p =
        Inr (0, data, [Fetch LISTING_URL_ver3 (page_params p), Parse]))
   \<and> (structure_missing w LISTING_URL_scraping p \<longrightarrow>
      scrape_listing_page_scraping w data p =
        (0, data, [Fetch LISTING_URL_scraping (page_params p), Parse]))
   \<and> (structure_missing w LISTING_URL_ver3 start_page \<and> 1 \<le> max_pages \<longrightarrow>
      run_ver3 w start_page max_pages expected_total =
        (if 0 < expected_total
         then run_pages (scrape_listing_page_ver3 w) expected_total
                [start_page + 1 .. start_page + max_pages - 1]
                \<lparr>scraper = [], total_scraped = 0, empty_pages = 1,
                 history = [(start_page, 0)],
                 calls = [Fetch LISTING_URL_ver3 (page_params start_page), Parse]\<rparr>
         else Inr (TARGET_REACHED,
                \<lparr>scraper = [], total_scraped = 0, empty_pages = 1,
                 history = [(start_page, 0)],
                 calls = [Fetch LISTING_URL_ver3 (page_params start_page), Parse]\<rparr>)))
   \<and> (structure_missing w LISTING_URL_scraping 1 \<and> 1 \<le> max_pages \<longrightarrow>
      run_scraping w max_pages expected_total =
        (if 0 < expected_total
         then run_pages (\<lambda>data page_num. Inr (scrape_listing_page_scraping w data page_num))
                expected_total [2 .. max_pages]
                \<lparr>scraper = [], total_scraped = 0, empty_pages = 1, history = [(1, 0)],
                 calls = [Fetch LISTING_URL_scraping (page_params 1), Parse]\<rparr>
         else Inr (TARGET_REACHED,
                \<lparr>scraper = [], total_scraped = 0, empty_pages = 1, history = [(1, 0)],
                 calls = [Fetch LISTING_URL_scraping (page_params 1), Parse]\<rparr>)))"
proof -
  have rows: "find_college_rows soup = []" if "find_listing_table soup = None" for soup
    using that by (simp add: find_college_rows_def)
  have a: "scrape_listing_page_ver3 w data p =
        Inr (0, data, [Fetch LISTING_URL_ver3 (page_params p), Parse])"
    if "structure_missing w LISTING_URL_ver3 p" for p data
    using that
    by (auto simp: structure_missing_def scrape_listing_page_ver3_def rows split: option.splits)
  have b: "scrape_listing_page_scraping w data p =
        (0, data, [Fetch LISTING_URL_scraping (page_params p), Parse])"
    if "structure_missing w LISTING_URL_scraping p" for p data
    using that
    by (auto simp: structure_missing_def scrape_listing_page_scraping_def rows
        split: option.splits)
  have c: "run_ver3 w start_page max_pages expected_total =
        (if 0 < expected_total
         then run_pages (scrape_listing_page_ver3 w) expected_total
                [start_page + 1 .. start_page + max_pages - 1]
                \<lparr>scraper = [], total_scraped = 0, empty_pages = 1,
                 history = [(start_page, 0)],
                 calls = [Fetch LISTING_URL_ver3 (page_params start_page), Parse]\<rparr>
         else Inr (TARGET_REACHED,
                \<lparr>scraper = [], total_scraped = 0, empty_pages = 1,
                 history = [(start_page, 0)],
                 calls = [Fetch LISTING_URL_ver3 (page_params start_page), Parse]\<rparr>))"
    if "structure_missing w LISTING_URL_ver3 start_page" "1 \<le> max_pages"
  proof -
    have "[start_page .. start_page + max_pages - 1]
            = start_page # [start_page + 1 .. start_page + max_pages - 1]"
      using that(2) by (simp add: upto_rec1)
    then show ?thesis
      by (simp add: run_ver3_def a[OF that(1)] start_state_def)
  qed
  have d: "run_scraping w max_pages expected_total =
        (if 0 < expected_total
         then run_pages (\<lambda>data page_num. Inr (scrape_listing_page_scraping w data page_num))
                expected_total [2 .. max_pages]
                \<lparr>scraper = [], total_scraped = 0, empty_pages = 1, history = [(1, 0)],
                 calls = [Fetch LISTING_URL_scraping (page_params 1), Parse]\<rparr>
         else Inr (TARGET_REACHED,
                \<lparr>scraper = [], total_scraped = 0, empty_pages = 1, history = [(1, 0)],
                 calls = [Fetch LISTING_URL_scraping (page_params 1), Parse]\<rparr>))"
    if "structure_missing w LISTING_URL_scraping 1" "1 \<le> max_pages"
  proof -
    have "[1 .. max_pages] = 1 # [2 .. max_pages]"
      using that(2) by (simp add: upto_rec1)
    then show ?thesis
      by (simp add: run_scraping_def b[OF that(1)] start_state_def)
  qed
  from a b c d show ?thesis by blast
qed

text \<open>
  The statement on a site whose first page has no table, for a run of two pages: with the
  expected total 10 the run goes on with page 2, with the expected total 0 it ends after
  page 1.
\<close>

theorem no_table_is_empty_page_witness:
  "structure_missing web_bare_first LISTING_URL_ver3 1
   \<and> structure_missing web_bare_first LISTING_URL_scraping 1
   \<and> scrape_listing_page_ver3 web_bare_first [] 1 = Inr (0, [], [Fetch LISTING_URL_ver3 None, Parse])
   \<and> scrape_listing_page_scraping web_bare_first [] 1
       = (0, [], [Fetch LISTING_URL_scraping None, Parse])
   \<and> run_pages (scrape_listing_page_ver3 web_bare_first) 10 [2 .. 2]
        \<lparr>scraper = [], total_scraped = 0, empty_pages = 1, history = [(1, 0)],
         calls = [Fetch LISTING_URL_ver3 None, Parse]\<rparr>
       = run_ver3 web_bare_first 1 2 10
   \<and> run_pages (\<lambda>data page_num. Inr (scrape_listing_page_scraping web_bare_first data page_num))
        10 [2 .. 2]
        \<lparr>scraper = [], total_scraped = 0, empty_pages = 1, history = [(1, 0)],
         calls = [Fetch LISTING_URL_scraping None, Parse]\<rparr>
       = run_scraping web_bare_first 2 10
   \<and> Inr (TARGET_REACHED,
          \<lparr>scraper = [], total_scraped = 0, empty_pages = 1, history = [(1, 0)],
           calls = [Fetch LISTING_URL_ver3 None, Parse]\<rparr>)
       = run_ver3 web_bare_first 1 2 0
   \<and> Inr (TARGET_REACHED,
          \<lparr>scraper = [], total_scraped = 0, empty_pages = 1, history = [(1, 0)],
           calls = [Fetch LISTING_URL_scraping None, Parse]\<rparr>)
       = run_scraping web_bare_first 2 0"
proof -
  have p: "page_params 1 = None" by (simp add: page_params_def)
  from no_table_is_empty_page[of web_bare_first 1 "[]" 1 2 10]
       no_table_is_empty_page[of web_bare_first 1 "[]" 1 2 0] bare_first_missing
  show ?thesis by (simp add: p)
qed

text \<open>
  The claim as stated fails: the first page has no table, and the run with two pages does
  not stop there. It fetches page 2, stores the college listed there and ends at the end of
  its range.
\<close>

theorem first_page_without_table_counterexample:
  "structure_missing web_bare_first LISTING_URL_scraping 1
   \<and> fst (projr (run_scraping web_bare_first 2 10)) = PAGE_LIMIT
   \<and> history (snd (projr (run_scraping web_bare_first 2 10))) = [(1, 0), (2, 1)]
   \<and> scraper (snd (projr (run_scraping web_bare_first 2 10))) = [sample_college ''#1'' ''A'']
   \<and> structure_missing web_bare_first LISTING_URL_ver3 1
   \<and> fst (projr (run_ver3 web_bare_first 1 2 10)) = PAGE_LIMIT
   \<and> history (snd (projr (run_ver3 web_bare_first 1 2 10))) = [(1, 0), (2, 1)]
   \<and> scraper (snd (projr (run_ver3 web_bare_first 1 2 10))) = [sample_college ''#1'' ''A'']"
  by (simp add: bare_first_missing run_scraping_bare_first_two run_ver3_bare_first_two)

section \<open>C3: merging a page twice\<close>

text \<open>
  C3. In version 4, for every store whose rows all have the name key and every page:
  processing the page a second time accepts nothing and leaves the store (the rows in
  memory and the file) as the first pass left it. If every named candidate of the page is
  already in the store by its name, the first pass already accepts nothing and changes
  nothing. If the page has a single candidate, with a name the store does not have, the
  counts are 1 and then 0.
\<close>

theorem merge_idempotent:
  assumes "keyed (colleges_data s)"
  shows "\<exists>c s1 cs. scrape_listing_page_ver4 w s p = Inr (c, s1, cs)
           \<and> scrape_listing_page_ver4 w s1 p = Inr (0, s1, cs)
           \<and> ((\<forall>x\<in>set (candidates (page_rows w LISTING_URL_ver4 p)).
                  named x \<longrightarrow> name_of x \<in> set (map name_of (colleges_data s)))
                \<longrightarrow> c = 0 \<and> s1 = s)
           \<and> (\<forall>x. candidates (page_rows w LISTING_URL_ver4 p) = [x] \<and> fresh (colleges_data s) x
                \<longrightarrow> c = 1 \<and> colleges_data s1 = colleges_data s @ [x]
                    \<and> excel_file s1 = Saved (colleges_data s @ [x]))"
proof -
  let ?acc = "accepted_ver4 w (colleges_data s) p"
  let ?s1 = "save_new_rows s ?acc"
  have first: "scrape_listing_page_ver4 w s p =
      Inr (length ?acc, ?s1, page_calls w LISTING_URL_ver4 p)"
    by (rule scrape_listing_page_ver4_eq[OF assms])
  have k1: "keyed (colleges_data ?s1)"
    by (simp add: save_new_rows_data keyed_accepted assms)
  have "accepted_ver4 w (colleges_data ?s1) p = []"
    by (simp add: save_new_rows_data accepted_ver4_again)
  then have second: "scrape_listing_page_ver4 w ?s1 p =
      Inr (0, ?s1, page_calls w LISTING_URL_ver4 p)"
    using scrape_listing_page_ver4_eq[OF k1, of w p] by (simp add: save_new_rows_Nil)
  have present: "length ?acc = 0 \<and> ?s1 = s"
    if "\<forall>x\<in>set (candidates (page_rows w LISTING_URL_ver4 p)).
          named x \<longrightarrow> name_of x \<in> set (map name_of (colleges_data s))"
  proof -
    from that have "?acc = []"
      by (auto simp: accepted_ver4_def filter_empty_conv fresh_def)
    then show ?thesis by (simp add: save_new_rows_Nil)
  qed
  have single: "length ?acc = 1 \<and> colleges_data ?s1 = colleges_data s @ [x]
                    \<and> excel_file ?s1 = Saved (colleges_data s @ [x])"
    if "candidates (page_rows w LISTING_URL_ver4 p) = [x] \<and> fresh (colleges_data s) x" for x
  proof -
    from that have "?acc = [x]" by (simp add: accepted_ver4_def)
    then show ?thesis by (simp add: save_new_rows_data save_new_rows_file)
  qed
  from first second present single show ?thesis by blast
qed

text \<open>The first page of a site, processed twice from the empty store: counts 1 and 0.\<close>

theorem merge_idempotent_witness:
  "keyed []
   \<and> candidates (page_rows web_growing LISTING_URL_ver4 1) = [sample_college ''#1'' ''A'']
   \<and> fresh [] (sample_college ''#1'' ''A'')
   \<and> scrape_listing_page_ver4 web_growing \<lparr>colleges_data = [], excel_file = Missing\<rparr> 1
       = Inr (1, \<lparr>colleges_data = [sample_college ''#1'' ''A''],
                  excel_file = Saved [sample_college ''#1'' ''A'']\<rparr>,
              [Fetch LISTING_URL_ver4 None, Parse])
   \<and> scrape_listing_page_ver4 web_growing
         \<lparr>colleges_data = [sample_college ''#1'' ''A''],
          excel_file = Saved [sample_college ''#1'' ''A'']\<rparr> 1
       = Inr (0, \<lparr>colleges_data = [sample_college ''#1'' ''A''],
                  excel_file = Saved [sample_college ''#1'' ''A'']\<rparr>,
              [Fetch LISTING_URL_ver4 None, Parse])"
proof -
  let ?s0 = "\<lparr>colleges_data = [], excel_file = Missing\<rparr>"
  let ?A = "sample_college ''#1'' ''A''"
  have k: "keyed (colleges_data ?s0)" by (simp add: keyed_def)
  have f: "fresh (colleges_data ?s0) ?A" by (simp add: fresh_def sample_named)
  from merge_idempotent[OF k, of web_growing 1]
  obtain c s1 cs where a: "scrape_listing_page_ver4 web_growing ?s0 1 = Inr (c, s1, cs)"
      "scrape_listing_page_ver4 web_growing s1 1 = Inr (0, s1, cs)"
      "\<forall>x. candidates (page_rows web_growing LISTING_URL_ver4 1) = [x]
             \<and> fresh (colleges_data ?s0) x
           \<longrightarrow> c = 1 \<and> colleges_data s1 = colleges_data ?s0 @ [x]
               \<and> excel_file s1 = Saved (colleges_data ?s0 @ [x])"
    by (elim conjE exE) (rule that; assumption)
  from a(3) web_growing_candidates(1) f
  have c: "c = 1" and s1: "s1 = \<lparr>colleges_data = [?A], excel_file = Saved [?A]\<rparr>"
    by auto
  have cs: "cs = [Fetch LISTING_URL_ver4 None, Parse]"
    using a(1) scrape_listing_page_ver4_eq[OF k, of web_growing 1]
    by (simp add: web_growing_calls)
  from a(1,2) k f show ?thesis
    unfolding c s1 cs by (simp add: web_growing_candidates)
qed

section \<open>C5: loading the store\<close>

text \<open>
  C5. The scraper does not meet the claim on a name that the reader of the file takes for
  a missing value. Without a file it starts with the empty store and no error, and with a
  file it starts with the rows read from it. A first session takes the colleges NA and B
  from page 1 and writes them to the file. The second session loads the file, where the
  name NA has been read as NaN, and processes page 2, which lists NA, B and the new
  college C. The claim asks that only C is accepted, as it is when the names are compared
  with the names written. The scraper accepts NA again with C: it returns the count 2, and
  NA is in the store and in the rewritten file twice.
\<close>

theorem reloaded_name_accepted_again:
  "init_ver4 read_excel_default Missing = Inr \<lparr>colleges_data = [], excel_file = Missing\<rparr>
   \<and> scrape_listing_page_ver4 web_na \<lparr>colleges_data = [], excel_file = Missing\<rparr> 1
       = Inr (2, \<lparr>colleges_data = [sample_college ''#1'' ''NA'', sample_college ''#2'' ''B''],
                  excel_file = Saved [sample_college ''#1'' ''NA'', sample_college ''#2'' ''B'']\<rparr>,
              [Fetch LISTING_URL_ver4 None, Parse])
   \<and> init_ver4 read_excel_default
        (Saved [sample_college ''#1'' ''NA'', sample_college ''#2'' ''B''])
       = Inr \<lparr>colleges_data = [loaded_college ''#1'' NaN, loaded_college ''#2'' (Str ''B'')],
              excel_file = Saved [sample_college ''#1'' ''NA'', sample_college ''#2'' ''B'']\<rparr>
   \<and> candidates (page_rows web_na LISTING_URL_ver4 2)
       = [sample_college ''#1'' ''NA'', sample_college ''#2'' ''B'', sample_college ''#3'' ''C'']
   \<and> filter (fresh [sample_college ''#1'' ''NA'', sample_college ''#2'' ''B''])
        (candidates (page_rows web_na LISTING_URL_ver4 2))
       = [sample_college ''#3'' ''C'']
   \<and> accepted_ver4 web_na [loaded_college ''#1'' NaN, loaded_college ''#2'' (Str ''B'')] 2
       = [sample_college ''#1'' ''NA'', sample_college ''#3'' ''C'']
   \<and> scrape_listing_page_ver4 web_na
        \<lparr>colleges_data = [loaded_college ''#1'' NaN, loaded_college ''#2'' (Str ''B'')],
         excel_file = Saved [sample_college ''#1'' ''NA'', sample_college ''#2'' ''B'']\<rparr> 2
       = Inr (2,
              \<lparr>colleges_data = [loaded_college ''#1'' NaN, loaded_college ''#2'' (Str ''B''),
                                sample_college ''#1'' ''NA'', sample_college ''#3'' ''C''],
               excel_file = Saved [loaded_college ''#1'' NaN, loaded_college ''#2'' (Str ''B''),
                                   sample_college ''#1'' ''NA'', sample_college ''#3'' ''C'']\<rparr>,
              [Fetch LISTING_URL_ver4 (Some 2), Parse])"
proof -
  have i1: "init_ver4 read_excel_default Missing
      = Inr \<lparr>colleges_data = [], excel_file = Missing\<rparr>"
    by (simp add: init_ver4_def)
  have i2: "init_ver4 read_excel_default
        (Saved [sample_college ''#1'' ''NA'', sample_college ''#2'' ''B''])
       = Inr \<lparr>colleges_data = [loaded_college ''#1'' NaN, loaded_college ''#2'' (Str ''B'')],
              excel_file = Saved [sample_college ''#1'' ''NA'', sample_college ''#2'' ''B'']\<rparr>"
    by (simp add: init_ver4_def reload_na)
  have f: "filter (fresh [sample_college ''#1'' ''NA'', sample_college ''#2'' ''B''])
        (candidates (page_rows web_na LISTING_URL_ver4 2))
       = [sample_college ''#3'' ''C'']"
    unfolding candidates_na by (rule fresh_na(1))
  have a: "accepted_ver4 web_na [loaded_college ''#1'' NaN, loaded_college ''#2'' (Str ''B'')] 2
       = [sample_college ''#1'' ''NA'', sample_college ''#3'' ''C'']"
    unfolding accepted_ver4_def candidates_na by (rule fresh_na(2))
  from i1 first_session_na i2 candidates_na f a second_session_na show ?thesis
    by (intro conjI)
qed

section \<open>C4: how the checkpoint is written\<close>

text \<open>
  C4 (as amended). In version 4 the checkpoint is written by one \<^verbatim>\<open>to_excel\<close> on the
  path of the checkpoint file itself; there is no temporary file and no rename. A page
  that accepts nothing does not touch the file. A page that accepts rows passes through
  four states: before; the rows added in memory and the file still as it was (a crash here
  leaves the prior checkpoint intact); the file opened for the write (neither the old nor
  the new checkpoint); the file holding the full collection.
\<close>

theorem checkpoint_written_in_place:
  assumes "keyed (colleges_data s)"
  shows "\<exists>c s' cs xs. scrape_listing_page_ver4 w s p = Inr (c, s', cs)
           \<and> scrape_states_ver4 w s p = Inr xs
           \<and> (c = 0 \<longrightarrow> xs = [s] \<and> s' = s)
           \<and> (0 < c \<longrightarrow>
                xs = [s,
                      s\<lparr>colleges_data := colleges_data s'\<rparr>,
                      s\<lparr>colleges_data := colleges_data s', excel_file := Partial\<rparr>,
                      s']
                \<and> excel_file s' = Saved (colleges_data s'))"
proof -
  let ?acc = "accepted_ver4 w (colleges_data s) p"
  have a: "scrape_listing_page_ver4 w s p =
      Inr (length ?acc, save_new_rows s ?acc, page_calls w LISTING_URL_ver4 p)"
    by (rule scrape_listing_page_ver4_eq[OF assms])
  have b: "scrape_states_ver4 w s p = Inr (save_states s ?acc)"
    by (rule scrape_states_ver4_eq[OF assms])
  have z: "length ?acc = 0 \<longrightarrow> save_states s ?acc = [s] \<and> save_new_rows s ?acc = s"
    by (simp add: save_states_Nil save_new_rows_Nil)
  have n: "0 < length ?acc \<longrightarrow>
       save_states s ?acc =
         [s, s\<lparr>colleges_data := colleges_data (save_new_rows s ?acc)\<rparr>,
          s\<lparr>colleges_data := colleges_data (save_new_rows s ?acc), excel_file := Partial\<rparr>,
          save_new_rows s ?acc]
       \<and> excel_file (save_new_rows s ?acc) = Saved (colleges_data (save_new_rows s ?acc))"
    by (simp add: save_states_new save_new_rows_data save_new_rows_file)
  from a b z n show ?thesis by blast
qed

text \<open>The statement for a store holding A and a page listing A and B.\<close>

theorem checkpoint_written_in_place_witness:
  "keyed [sample_college ''#1'' ''A'']
   \<and> scrape_listing_page_ver4 web_growing
        \<lparr>colleges_data = [sample_college ''#1'' ''A''],
         excel_file = Saved [sample_college ''#1'' ''A'']\<rparr> 2
     = Inr (1, \<lparr>colleges_data = [sample_college ''#1'' ''A'', sample_college ''#2'' ''B''],
                excel_file = Saved [sample_college ''#1'' ''A'', sample_college ''#2'' ''B'']\<rparr>,
            [Fetch LISTING_URL_ver4 (Some 2), Parse])
   \<and> scrape_states_ver4 web_growing
        \<lparr>colleges_data = [sample_college ''#1'' ''A''],
         excel_file = Saved [sample_college ''#1'' ''A'']\<rparr> 2
     = Inr [\<lparr>colleges_data = [sample_college ''#1'' ''A''],
             excel_file = Saved [sample_college ''#1'' ''A'']\<rparr>,
            \<lparr>colleges_data = [sample_college ''#1'' ''A'', sample_college ''#2'' ''B''],
             excel_file = Saved [sample_college ''#1'' ''A'']\<rparr>,
            \<lparr>colleges_data = [sample_college ''#1'' ''A'', sample_college ''#2'' ''B''],
             excel_file = Partial\<rparr>,
            \<lparr>colleges_data = [sample_college ''#1'' ''A'', sample_college ''#2'' ''B''],
             excel_file = Saved [sample_college ''#1'' ''A'', sample_college ''#2'' ''B'']\<rparr>]"
proof -
  let ?s = "\<lparr>colleges_data = [sample_college ''#1'' ''A''],
             excel_file = Saved [sample_college ''#1'' ''A'']\<rparr>"
  have k: "keyed (colleges_data ?s)" by (simp add: keyed_def sample_named)
  from checkpoint_written_in_place[OF k, of web_growing 2]
  obtain c s' cs xs where a: "scrape_listing_page_ver4 web_growing ?s 2 = Inr (c, s', cs)"
      "scrape_states_ver4 web_growing ?s 2 = Inr xs"
      "0 < c \<longrightarrow> xs = [?s, ?s\<lparr>colleges_data := colleges_data s'\<rparr>,
                      ?s\<lparr>colleges_data := colleges_data s', excel_file := Partial\<rparr>, s']
                \<and> excel_file s' = Saved (colleges_data s')"
    by (elim conjE exE) (rule that; assumption)
  from a(1) have c: "c = 1"
    and s': "s' = \<lparr>colleges_data = [sample_college ''#1'' ''A'', sample_college ''#2'' ''B''],
                excel_file = Saved [sample_college ''#1'' ''A'', sample_college ''#2'' ''B'']\<rparr>"
    and cs: "cs = [Fetch LISTING_URL_ver4 (Some 2), Parse]"
    by (simp_all add: scrape_ver4_growing_2)
  from a(3) have xs: "xs = [?s, ?s\<lparr>colleges_data := colleges_data s'\<rparr>,
                      ?s\<lparr>colleges_data := colleges_data s', excel_file := Partial\<rparr>, s']"
    by (simp add: c)
  from a(1,2) k show ?thesis unfolding xs c cs s' by simp
qed

text \<open>
  The claim as stated fails: after the merge of B and before the write has completed there
  is a state in which the file is not the prior checkpoint and cannot be loaded.
\<close>

theorem crash_during_write_counterexample:
  "excel_file (projr (scrape_states_ver4 web_growing
       \<lparr>colleges_data = [sample_college ''#1'' ''A''],
        excel_file = Saved [sample_college ''#1'' ''A'']\<rparr> 2) ! 2) = Partial
   \<and> colleges_data (projr (scrape_states_ver4 web_growing
       \<lparr>colleges_data = [sample_college ''#1'' ''A''],
        excel_file = Saved [sample_college ''#1'' ''A'']\<rparr> 2) ! 2)
       = [sample_college ''#1'' ''A'', sample_college ''#2'' ''B'']
   \<and> init_ver4 read_blank_as_nan (excel_file (projr (scrape_states_ver4 web_growing
       \<lparr>colleges_data = [sample_college ''#1'' ''A''],
        excel_file = Saved [sample_college ''#1'' ''A'']\<rparr> 2) ! 2)) = Inl BadFile"
  by (simp add: scrape_states_growing_2 init_ver4_def)

section \<open>C7: the file is written after every page with new rows\<close>

text \<open>
  C7 (as amended). In version 4, a page that accepts at least one row ends with the file
  holding the full collection, before the loop goes to the next page; a page that accepts
  nothing leaves store and file as they were. So a store whose file holds what it holds
  stays so from page to page, through any number of passes of the loop. Within a page, as
  long as the file is not in the middle of being rewritten it is either the file as it was
  before the page or the file with the full collection: a crash then loses at most the
  rows of the page in progress. The write itself is in place and is not covered.
\<close>

theorem write_through_per_page:
  assumes "keyed (colleges_data s)"
  shows "(\<exists>c s' cs xs. scrape_listing_page_ver4 w s p = Inr (c, s', cs)
           \<and> scrape_states_ver4 w s p = Inr xs
           \<and> (0 < c \<longrightarrow> excel_file s' = Saved (colleges_data s'))
           \<and> (c = 0 \<longrightarrow> s' = s)
           \<and> (durable s \<longrightarrow> durable s')
           \<and> (\<forall>x\<in>set xs. excel_file x = Partial \<or> excel_file x = excel_file s
                  \<or> excel_file x = Saved (colleges_data s')))
         \<and> (durable s \<longrightarrow>
              (\<exists>b pg st'. run_steps_ver4 n w q (start_state s) = Inr (b, pg, st')
                 \<and> durable (scraper st')))"
proof -
  let ?acc = "accepted_ver4 w (colleges_data s) p"
  have a: "scrape_listing_page_ver4 w s p =
      Inr (length ?acc, save_new_rows s ?acc, page_calls w LISTING_URL_ver4 p)"
    by (rule scrape_listing_page_ver4_eq[OF assms])
  have b: "scrape_states_ver4 w s p = Inr (save_states s ?acc)"
    by (rule scrape_states_ver4_eq[OF assms])
  have c: "0 < length ?acc \<longrightarrow>
      excel_file (save_new_rows s ?acc) = Saved (colleges_data (save_new_rows s ?acc))"
    by (simp add: save_new_rows_data save_new_rows_file)
  have d: "length ?acc = 0 \<longrightarrow> save_new_rows s ?acc = s"
    by (simp add: save_new_rows_Nil)
  have e: "durable s \<longrightarrow> durable (save_new_rows s ?acc)"
    by (simp add: durable_save)
  have f: "\<forall>x\<in>set (save_states s ?acc). excel_file x = Partial \<or> excel_file x = excel_file s
             \<or> excel_file x = Saved (colleges_data (save_new_rows s ?acc))"
    by (cases "?acc = []")
       (simp_all add: save_states_Nil save_states_new save_new_rows_new)
  have page: "\<exists>c s' cs xs. scrape_listing_page_ver4 w s p = Inr (c, s', cs)
           \<and> scrape_states_ver4 w s p = Inr xs
           \<and> (0 < c \<longrightarrow> excel_file s' = Saved (colleges_data s'))
           \<and> (c = 0 \<longrightarrow> s' = s)
           \<and> (durable s \<longrightarrow> durable s')
           \<and> (\<forall>x\<in>set xs. excel_file x = Partial \<or> excel_file x = excel_file s
                  \<or> excel_file x = Saved (colleges_data s'))"
    using a b c d e f by blast
  have run: "\<exists>b pg st'. run_steps_ver4 n w q (start_state s) = Inr (b, pg, st')
                 \<and> durable (scraper st')" if "durable s"
  proof -
    have "\<exists>b pg st' k. run_steps_ver4 n w q (start_state s) = Inr (b, pg, st') \<and>
        keyed (colleges_data (scraper st')) \<and> durable (scraper st') \<and>
        empty_pages st' = streak (history st') \<and> k \<le> n \<and>
        map fst (history st') = map fst (history (start_state s)) @ [q .. q + int k - 1] \<and>
        calls st' = calls (start_state s)
          @ concat (map (page_calls w LISTING_URL_ver4) [q .. q + int k - 1]) \<and>
        (b \<longrightarrow> 0 < k \<and> pg = q + int k - 1 \<and> 3 \<le> empty_pages st') \<and>
        (\<not> b \<longrightarrow> k = n \<and> pg = q + int n)"
      by (rule run_steps_ver4_inv[where P = durable])
         (simp_all add: durable_save start_state_def assms that streak_Nil)
    then show ?thesis by blast
  qed
  from page run show ?thesis by blast
qed

text \<open>The statement for a store holding A, saved, and a page listing A and B.\<close>

theorem write_through_per_page_witness:
  "keyed [sample_college ''#1'' ''A'']
   \<and> durable \<lparr>colleges_data = [sample_college ''#1'' ''A''],
              excel_file = Saved [sample_college ''#1'' ''A'']\<rparr>
   \<and> fst (projr (scrape_listing_page_ver4 web_growing
        \<lparr>colleges_data = [sample_college ''#1'' ''A''],
         excel_file = Saved [sample_college ''#1'' ''A'']\<rparr> 2)) = 1
   \<and> excel_file (fst (snd (projr (scrape_listing_page_ver4 web_growing
        \<lparr>colleges_data = [sample_college ''#1'' ''A''],
         excel_file = Saved [sample_college ''#1'' ''A'']\<rparr> 2))))
       = Saved [sample_college ''#1'' ''A'', sample_college ''#2'' ''B'']
   \<and> durable (fst (snd (projr (scrape_listing_page_ver4 web_growing
        \<lparr>colleges_data = [sample_college ''#1'' ''A''],
         excel_file = Saved [sample_college ''#1'' ''A'']\<rparr> 2))))"
proof -
  let ?s = "\<lparr>colleges_data = [sample_college ''#1'' ''A''],
             excel_file = Saved [sample_college ''#1'' ''A'']\<rparr>"
  let ?r = "scrape_listing_page_ver4 web_growing ?s 2"
  have k: "keyed (colleges_data ?s)" by (simp add: keyed_def sample_named)
  have d: "durable ?s" by (simp add: durable_def)
  from write_through_per_page[OF k, of web_growing 2 0 1]
  obtain c s' cs where a: "?r = Inr (c, s', cs)"
      "0 < c \<longrightarrow> excel_file s' = Saved (colleges_data s')" "durable ?s \<longrightarrow> durable s'"
    by (elim conjE exE) (rule that; assumption)
  from a(1) have c: "c = fst (projr ?r)" and s': "s' = fst (snd (projr ?r))" by simp_all
  have c1: "fst (projr ?r) = 1" by (simp add: scrape_ver4_growing_2)
  from a(3) d have "durable (fst (snd (projr ?r)))" unfolding s' by simp
  moreover from a(2) have "excel_file (fst (snd (projr ?r)))
      = Saved [sample_college ''#1'' ''A'', sample_college ''#2'' ''B'']"
    unfolding s' c by (simp add: scrape_ver4_growing_2)
  ultimately show ?thesis using k d c1 by simp
qed

text \<open>
  The claim as stated fails: page 1 has completed and its college A is in the file; while
  page 2 is saved there is a state in which the file cannot be loaded and holds no row, so
  a crash there loses A, which a completed page had accepted.
\<close>

theorem prior_page_lost_counterexample:
  "fst (projr (scrape_listing_page_ver4 web_growing
         \<lparr>colleges_data = [], excel_file = Missing\<rparr> 1)) = 1
   \<and> fst (snd (projr (scrape_listing_page_ver4 web_growing
         \<lparr>colleges_data = [], excel_file = Missing\<rparr> 1)))
       = \<lparr>colleges_data = [sample_college ''#1'' ''A''],
          excel_file = Saved [sample_college ''#1'' ''A'']\<rparr>
   \<and> length (projr (scrape_states_ver4 web_growing
         \<lparr>colleges_data = [sample_college ''#1'' ''A''],
          excel_file = Saved [sample_college ''#1'' ''A'']\<rparr> 2)) = 4
   \<and> file_rows (excel_file (projr (scrape_states_ver4 web_growing
         \<lparr>colleges_data = [sample_college ''#1'' ''A''],
          excel_file = Saved [sample_college ''#1'' ''A'']\<rparr> 2) ! 2)) = []
   \<and> init_ver4 read_blank_as_nan (excel_file (projr (scrape_states_ver4 web_growing
         \<lparr>colleges_data = [sample_college ''#1'' ''A''],
          excel_file = Saved [sample_college ''#1'' ''A'']\<rparr> 2) ! 2)) = Inl BadFile"
  by (simp add: scrape_ver4_growing_1 scrape_states_growing_2 init_ver4_def)

section \<open>C8: no row without a name is stored\<close>

text \<open>
  C8. Every store that page processing reaches from the empty store holds only rows whose
  name is a string that is not empty: in version 3, in scraping.py, and in version 4, where
  this also holds of the rows in the file and of the store a later session loads from it,
  provided reading the file keeps the names of rows that have one. The count of a page is
  the number of rows appended, and these are candidates with a name: all of them in
  version 3 and scraping.py, those whose name the store does not have in version 4.
\<close>

theorem only_named_rows_stored:
  "(reach_ver3 w data \<longrightarrow> list_all named data)
   \<and> (reach_scraping w data \<longrightarrow> list_all named data)
   \<and> ((\<forall>rows. list_all named rows \<longrightarrow> map name_of (read_excel rows) = map name_of rows)
        \<and> reach_ver4 read_excel w s \<longrightarrow>
          list_all named (colleges_data s) \<and> list_all named (file_rows (excel_file s)))
   \<and> scrape_listing_page_ver3 w data p =
        Inr (length (filter named (candidates (page_rows w LISTING_URL_ver3 p))),
             data @ filter named (candidates (page_rows w LISTING_URL_ver3 p)),
             page_calls w LISTING_URL_ver3 p)
   \<and> scrape_listing_page_scraping w data p =
        (length (filter named (candidates_scraping (page_rows w LISTING_URL_scraping p))),
         data @ filter named (candidates_scraping (page_rows w LISTING_URL_scraping p)),
         page_calls w LISTING_URL_scraping p)
   \<and> (keyed (colleges_data s) \<longrightarrow>
        (\<exists>s'. scrape_listing_page_ver4 w s p =
           Inr (length (filter (\<lambda>c. named c \<and> name_of c \<notin> set (map name_of (colleges_data s)))
                          (candidates (page_rows w LISTING_URL_ver4 p))),
                s', page_calls w LISTING_URL_ver4 p)
         \<and> colleges_data s' = colleges_data s
             @ filter (\<lambda>c. named c \<and> name_of c \<notin> set (map name_of (colleges_data s)))
                 (candidates (page_rows w LISTING_URL_ver4 p))))"
proof -
  have f: "filter (\<lambda>c. named c \<and> name_of c \<notin> set (map name_of (colleges_data s)))
             (candidates (page_rows w LISTING_URL_ver4 p)) = accepted_ver4 w (colleges_data s) p"
    by (simp add: accepted_ver4_def fresh_def[abs_def])
  have a: "reach_ver3 w data \<longrightarrow> list_all named data"
    using reach_ver3_named by blast
  have b: "reach_scraping w data \<longrightarrow> list_all named data"
    using reach_scraping_named by blast
  have c: "(\<forall>rows. list_all named rows \<longrightarrow> map name_of (read_excel rows) = map name_of rows)
        \<and> reach_ver4 read_excel w s \<longrightarrow>
          list_all named (colleges_data s) \<and> list_all named (file_rows (excel_file s))"
    using reach_ver4_named[of read_excel w s] by blast
  have d: "scrape_listing_page_ver3 w data p =
        Inr (length (filter named (candidates (page_rows w LISTING_URL_ver3 p))),
             data @ filter named (candidates (page_rows w LISTING_URL_ver3 p)),
             page_calls w LISTING_URL_ver3 p)"
    using scrape_listing_page_ver3_eq[of w data p] by (simp add: accepted_ver3_def)
  have e: "scrape_listing_page_scraping w data p =
        (length (filter named (candidates_scraping (page_rows w LISTING_URL_scraping p))),
         data @ filter named (candidates_scraping (page_rows w LISTING_URL_scraping p)),
         page_calls w LISTING_URL_scraping p)"
    using scrape_listing_page_scraping_eq[of w data p] by (simp add: accepted_scraping_def)
  have g: "keyed (colleges_data s) \<longrightarrow>
        (\<exists>s'. scrape_listing_page_ver4 w s p =
           Inr (length (accepted_ver4 w (colleges_data s) p), s', page_calls w LISTING_URL_ver4 p)
         \<and> colleges_data s' = colleges_data s @ accepted_ver4 w (colleges_data s) p)"
    using scrape_listing_page_ver4_eq[of s w p] by (simp add: save_new_rows_data)
  from a b c d e g show ?thesis unfolding f by (intro conjI)
qed

text \<open>
  The store after the first page of a site, in all three scrapers, and the store a new
  session of version 4 loads from the file, read back with blank cells as NaN.
\<close>

theorem only_named_rows_stored_witness:
  "reach_ver3 web_growing [sample_college ''#1'' ''A'']
   \<and> reach_scraping web_growing [sample_college ''#1'' ''A'']
   \<and> reach_ver4 read_blank_as_nan web_growing
        \<lparr>colleges_data = read_blank_as_nan [sample_college ''#1'' ''A''],
         excel_file = Saved [sample_college ''#1'' ''A'']\<rparr>
   \<and> list_all named [sample_college ''#1'' ''A'']
   \<and> list_all named (read_blank_as_nan [sample_college ''#1'' ''A''])
   \<and> keyed []
   \<and> scrape_listing_page_ver4 web_growing \<lparr>colleges_data = [], excel_file = Missing\<rparr> 1
       = Inr (1, \<lparr>colleges_data = [sample_college ''#1'' ''A''],
                  excel_file = Saved [sample_college ''#1'' ''A'']\<rparr>,
              [Fetch LISTING_URL_ver4 None, Parse])"
proof -
  let ?A = "sample_college ''#1'' ''A''"
  let ?s = "\<lparr>colleges_data = read_blank_as_nan [?A], excel_file = Saved [?A]\<rparr>"
  have r3: "reach_ver3 web_growing [?A]"
    by (rule reach_ver3_page[OF reach_ver3_start]) (rule scrape_ver3_growing_1)
  have rs: "reach_scraping web_growing [?A]"
    by (rule reach_scraping_page[OF reach_scraping_start]) (rule scrape_scraping_growing_1)
  have r4a: "reach_ver4 read_blank_as_nan web_growing
      \<lparr>colleges_data = [?A], excel_file = Saved [?A]\<rparr>"
    by (rule reach_ver4_page[OF reach_ver4_start]) (rule scrape_ver4_growing_1)
  have r4: "reach_ver4 read_blank_as_nan web_growing ?s"
    by (rule reach_ver4_load[OF r4a]) (simp add: init_ver4_def)
  have hyp: "\<forall>rows. list_all named rows \<longrightarrow>
      map name_of (read_blank_as_nan rows) = map name_of rows"
    using blank_as_nan_keeps_names by blast
  from only_named_rows_stored[of web_growing "[?A]" read_blank_as_nan ?s 1] r3 r4 hyp
  have n: "list_all named [?A]" "list_all named (colleges_data ?s)"
    by blast+
  have k: "keyed []" by (simp add: keyed_def)
  from r3 rs r4 n k show ?thesis by (simp add: scrape_ver4_growing_1)
qed

section \<open>C9: failed requests and the order of the pages\<close>

text \<open>
  C9. In version 4 a failed request makes \<^verbatim>\<open>scrape_listing_page\<close> return the count 0
  with the store untouched and with the request as its only call: the document is not
  searched. After any number of passes of the loop the history lists the pages from the
  start page on, each index one above the one before and so strictly increasing; the calls
  are, page by page, one request and a search only where the request returned a document;
  the counter of empty pages is the streak of the history, in which a failed request
  counts like a page without new rows. When the loop has stopped within these passes, that
  state is what \<^verbatim>\<open>run\<close> returns. The stream loop of stage 1 has the same properties:
  its history is the counts of an initial segment of its pages, which come from a strictly
  increasing range, a failed request counts 0 and is followed by no search, and the counter
  is the streak of the history.
\<close>

theorem failed_fetch_is_empty_page:
  "(fetch_page w LISTING_URL_ver4 (page_params p) = None \<longrightarrow>
      scrape_listing_page_ver4 w s p = Inr (0, s, [Fetch LISTING_URL_ver4 (page_params p)]))
   \<and> (keyed (colleges_data s) \<longrightarrow>
       (\<exists>b pg st. run_steps_ver4 n w p (start_state s) = Inr (b, pg, st)
          \<and> map fst (history st) = [p .. p + int (length (history st)) - 1]
          \<and> sorted_wrt (<) (map fst (history st))
          \<and> calls st = concat (map (page_calls w LISTING_URL_ver4) (map fst (history st)))
          \<and> empty_pages st = streak (history st)
          \<and> (\<forall>e\<in>set (history st).
                 fetch_page w LISTING_URL_ver4 (page_params (fst e)) = None \<longrightarrow> snd e = 0)
          \<and> (b \<longrightarrow> history st \<noteq> [] \<and> pg = p + int (length (history st)) - 1
                   \<and> run_ver4 w s p = Some (Inr st))
          \<and> (\<not> b \<longrightarrow> length (history st) = n \<and> pg = p + int n)))
   \<and> (\<exists>k\<le>length pages.
         stream_history (stream_pages w stream url pages st1)
           = stream_history st1 @ map (\<lambda>q. (q, count_stage1 w url q)) (take k pages)
         \<and> stream_calls (stream_pages w stream url pages st1)
           = stream_calls st1 @ concat (map (page_calls w url) (take k pages))
         \<and> (stream_empty_pages st1 = streak (stream_history st1) \<longrightarrow>
              stream_empty_pages (stream_pages w stream url pages st1)
                = streak (stream_history (stream_pages w stream url pages st1))))
   \<and> (fetch_page w url (page_params q) = None \<longrightarrow>
         count_stage1 w url q = 0 \<and> page_calls w url q = [Fetch url (page_params q)])
   \<and> sorted_wrt (<) [1 .. MAX_PAGES_PER_STREAM]"
proof -
  have up: "sorted_wrt (<) [i .. j]" for i j :: int
    by (simp add: strict_sorted_iff)
  have a: "scrape_listing_page_ver4 w s p = Inr (0, s, [Fetch LISTING_URL_ver4 (page_params p)])"
    if "fetch_page w LISTING_URL_ver4 (page_params p) = None"
    using that by (simp add: scrape_listing_page_ver4_def)
  have b: "\<exists>b pg st. run_steps_ver4 n w p (start_state s) = Inr (b, pg, st)
          \<and> map fst (history st) = [p .. p + int (length (history st)) - 1]
          \<and> sorted_wrt (<) (map fst (history st))
          \<and> calls st = concat (map (page_calls w LISTING_URL_ver4) (map fst (history st)))
          \<and> empty_pages st = streak (history st)
          \<and> (\<forall>e\<in>set (history st).
                 fetch_page w LISTING_URL_ver4 (page_params (fst e)) = None \<longrightarrow> snd e = 0)
          \<and> (b \<longrightarrow> history st \<noteq> [] \<and> pg = p + int (length (history st)) - 1
                   \<and> run_ver4 w s p = Some (Inr st))
          \<and> (\<not> b \<longrightarrow> length (history st) = n \<and> pg = p + int n)"
    if k: "keyed (colleges_data s)"
  proof -
    have "\<exists>b pg st' k. run_steps_ver4 n w p (start_state s) = Inr (b, pg, st') \<and>
        keyed (colleges_data (scraper st')) \<and> True \<and>
        empty_pages st' = streak (history st') \<and> k \<le> n \<and>
        map fst (history st') = map fst (history (start_state s)) @ [p .. p + int k - 1] \<and>
        calls st' = calls (start_state s)
          @ concat (map (page_calls w LISTING_URL_ver4) [p .. p + int k - 1]) \<and>
        (b \<longrightarrow> 0 < k \<and> pg = p + int k - 1 \<and> 3 \<le> empty_pages st') \<and>
        (\<not> b \<longrightarrow> k = n \<and> pg = p + int n)"
      by (rule run_steps_ver4_inv[where P = "\<lambda>s. True"])
         (simp_all add: start_state_def k streak_Nil)
    then obtain b pg st k where r: "run_steps_ver4 n w p (start_state s) = Inr (b, pg, st)"
        "empty_pages st = streak (history st)"
        "map fst (history st) = [p .. p + int k - 1]"
        "calls st = concat (map (page_calls w LISTING_URL_ver4) [p .. p + int k - 1])"
        "b \<longrightarrow> 0 < k \<and> pg = p + int k - 1" "\<not> b \<longrightarrow> k = n \<and> pg = p + int n"
      by (auto simp: start_state_def)
    from r(3) have "length (map fst (history st)) = length [p .. p + int k - 1]" by simp
    then have len: "length (history st) = k" by simp
    have "\<forall>e\<in>set (history st). page_rows w LISTING_URL_ver4 (fst e) = [] \<longrightarrow> snd e = 0"
      by (rule run_steps_ver4_counts[OF _ r(1)]) (simp_all add: start_state_def k)
    then have cnt: "\<forall>e\<in>set (history st).
        fetch_page w LISTING_URL_ver4 (page_params (fst e)) = None \<longrightarrow> snd e = 0"
      by (simp add: failed_fetch_no_rows)
    have loop: "run_ver4 w s p = Some (Inr st)" if b
      using that r(1) run_loop_of_steps[of n w p "start_state s" pg st]
      by (simp add: run_ver4_def)
    have "run_steps_ver4 n w p (start_state s) = Inr (b, pg, st)
          \<and> map fst (history st) = [p .. p + int (length (history st)) - 1]
          \<and> sorted_wrt (<) (map fst (history st))
          \<and> calls st = concat (map (page_calls w LISTING_URL_ver4) (map fst (history st)))
          \<and> empty_pages st = streak (history st)
          \<and> (\<forall>e\<in>set (history st).
                 fetch_page w LISTING_URL_ver4 (page_params (fst e)) = None \<longrightarrow> snd e = 0)
          \<and> (b \<longrightarrow> history st \<noteq> [] \<and> pg = p + int (length (history st)) - 1
                   \<and> run_ver4 w s p = Some (Inr st))
          \<and> (\<not> b \<longrightarrow> length (history st) = n \<and> pg = p + int n)"
      using r loop up cnt unfolding len by auto
    then show ?thesis by blast
  qed
  have c: "count_stage1 w url q = 0 \<and> page_calls w url q = [Fetch url (page_params q)]"
    if "fetch_page w url (page_params q) = None"
    using that by (simp add: count_stage1_def page_calls_def)
  from a b c stream_pages_shape[of pages w stream url st1] up[of 1 MAX_PAGES_PER_STREAM]
  show ?thesis by blast
qed

text \<open>A site where every request fails: three requests, no search, and the loop of
  version 4 returns after the third; the stream loop of stage 1 does the same.\<close>

theorem failed_fetch_is_empty_page_witness:
  "fetch_page web_down LISTING_URL_ver4 (page_params 2) = None
   \<and> scrape_listing_page_ver4 web_down \<lparr>colleges_data = [], excel_file = Missing\<rparr> 2
       = Inr (0, \<lparr>colleges_data = [], excel_file = Missing\<rparr>, [Fetch LISTING_URL_ver4 (Some 2)])
   \<and> keyed []
   \<and> run_ver4 web_down \<lparr>colleges_data = [], excel_file = Missing\<rparr> 1
       = Some (Inr \<lparr>scraper = \<lparr>colleges_data = [], excel_file = Missing\<rparr>,
                    total_scraped = 0, empty_pages = 3, history = [(1, 0), (2, 0), (3, 0)],
                    calls = [Fetch LISTING_URL_ver4 None, Fetch LISTING_URL_ver4 (Some 2),
                             Fetch LISTING_URL_ver4 (Some 3)]\<rparr>)
   \<and> stream_history (stream_pages web_down ''Arts''
         ''https://collegedunia.com/arts/arts-colleges'' [1 .. 5]
         \<lparr>collected = [], stream_empty_pages = 0, stream_history = [], stream_calls = []\<rparr>)
       = [(1, 0), (2, 0), (3, 0)]
   \<and> count_stage1 web_down ''https://collegedunia.com/arts/arts-colleges'' 2 = 0"
proof -
  let ?s = "\<lparr>colleges_data = [], excel_file = Missing\<rparr>"
  let ?url = "''https://collegedunia.com/arts/arts-colleges''"
  let ?run = "run_steps_ver4 5 web_down 1 (start_state ?s)"
  have f: "fetch_page web_down LISTING_URL_ver4 (page_params 2) = None"
    "fetch_page web_down ?url (page_params 2) = None"
    by (simp_all add: fetch_page_def web_down_def)
  have k: "keyed (colleges_data ?s)" by (simp add: keyed_def)
  have pp: "page_params 2 = Some 2" by (simp add: page_params_def)
  note t2 = failed_fetch_is_empty_page[of web_down 2 ?s 0 "[]" "''Arts''" ?url
      "\<lparr>collected = [], stream_empty_pages = 0, stream_history = [], stream_calls = []\<rparr>" 2]
  from t2[THEN conjunct1, THEN mp, OF f(1)]
  have a: "scrape_listing_page_ver4 web_down ?s 2
       = Inr (0, ?s, [Fetch LISTING_URL_ver4 (page_params 2)])" .
  from t2[THEN conjunct2, THEN conjunct2, THEN conjunct2, THEN conjunct1, THEN mp, OF f(2)]
  have c: "count_stage1 web_down ?url 2 = 0" by simp
  note t = failed_fetch_is_empty_page[of web_down 1 ?s 5 "[]" "''Arts''" ?url
      "\<lparr>collected = [], stream_empty_pages = 0, stream_history = [], stream_calls = []\<rparr>" 2]
  from t[THEN conjunct2, THEN conjunct1, THEN mp, OF k]
  obtain b pg st where r: "?run = Inr (b, pg, st)"
    "b \<longrightarrow> history st \<noteq> [] \<and> pg = 1 + int (length (history st)) - 1
         \<and> run_ver4 web_down ?s 1 = Some (Inr st)"
    by (elim exE conjE) (rule that; assumption)
  from r(1) have b: "b = fst (projr ?run)" and st: "st = snd (snd (projr ?run))"
    by simp_all
  from r(2) have loop: "run_ver4 web_down ?s 1 = Some (Inr (snd (snd (projr ?run))))"
    unfolding b st by (simp add: run_steps_ver4_down)
  show ?thesis
    using f(1) a c k loop by (simp add: pp run_steps_ver4_down stream_pages_down)
qed


end
